theory Spec2Isabelle
  imports Complex_Main "HOL-Library.Sublist"
begin

section \<open>Go values used by the program\<close>

text \<open>
  Go strings are byte sequences; they are modelled as \<open>string\<close> (a list of 8-bit
  characters). Go's \<open>int\<close> is taken to be 64 bits wide, as on amd64 and arm64: an
  \<open>int\<close> value is modelled by the mathematical integer it denotes, and where the
  program's arithmetic can leave the 64-bit range the two's complement wrap-around is
  written out with \<open>wrap64\<close>. A \<open>float64\<close> is modelled by the real number it denotes:
  comparisons are exact, NaN and the infinities are outside the model, and a product is
  the exact product where Go rounds it to the nearest \<open>float64\<close>. An \<open>error\<close> is
  modelled by its message, the only part of an error this program ever reads; the
  \<open>nil\<close> error is \<open>None\<close> of \<open>error option\<close>, and a function returning
  \<open>(T, error)\<close> returns \<open>error + T\<close>.
\<close>

type_synonym float64 = real
type_synonym error = string

definition minInt64 :: int where
  "minInt64 = - 9223372036854775808"

definition maxInt64 :: int where
  "maxInt64 = 9223372036854775807"

definition maxUint64 :: nat where
  "maxUint64 = 18446744073709551615"

definition wrap64 :: "int \<Rightarrow> int" where
  "wrap64 x = (x + 9223372036854775808) mod 18446744073709551616 - 9223372036854775808"

subsection \<open>Package strings\<close>

text \<open>\<open>strings.HasPrefix\<close>, \<open>strings.HasSuffix\<close>, \<open>strings.TrimSuffix\<close> and
  \<open>strings.Contains\<close>, on bytes as in Go.\<close>

definition HasPrefix :: "string \<Rightarrow> string \<Rightarrow> bool" where
  "HasPrefix s pre = (length pre \<le> length s \<and> take (length pre) s = pre)"

definition HasSuffix :: "string \<Rightarrow> string \<Rightarrow> bool" where
  "HasSuffix s suf = (length suf \<le> length s \<and> drop (length s - length suf) s = suf)"

definition TrimSuffix :: "string \<Rightarrow> string \<Rightarrow> string" where
  "TrimSuffix s suf = (if HasSuffix s suf then take (length s - length suf) s else s)"

fun Contains :: "string \<Rightarrow> string \<Rightarrow> bool" where
  "Contains [] substr = (substr = [])"
| "Contains (c # s) substr = (HasPrefix (c # s) substr \<or> Contains s substr)"

text \<open>\<open>strings.ToLower\<close>. Go first looks for a byte of 128 or more (\<open>utf8.RuneSelf\<close>).
  When there is none, the string is ASCII and is mapped byte by byte: a byte in
  \<open>A\<close>..\<open>Z\<close> gets 32 added, which sets its bit of weight 32, and every other byte is
  kept. When there is one, the result is \<open>strings.Map(unicode.ToLower, s)\<close>: the string is
  decoded as UTF-8 and every code point is mapped by the case tables of the Unicode
  version that the Go release carries. Those tables are not part of this program; the
  function \<open>s \<mapsto> strings.Map(unicode.ToLower, s)\<close> is the argument \<open>unicodeLower\<close>
  of the model, and nothing is assumed of it.\<close>

definition toLowerByte :: "char \<Rightarrow> char" where
  "toLowerByte c =
     (let n = (of_char c :: nat) in
      if 65 \<le> n \<and> n \<le> 90
      then (case c of Char b0 b1 b2 b3 b4 b5 b6 b7 \<Rightarrow> Char b0 b1 b2 b3 b4 True b6 b7)
      else c)"

definition isASCII :: "string \<Rightarrow> bool" where
  "isASCII s = list_all (\<lambda>c. (of_char c :: nat) < 128) s"

definition ToLower :: "(string \<Rightarrow> string) \<Rightarrow> string \<Rightarrow> string" where
  "ToLower unicodeLower s = (if isASCII s then map toLowerByte s else unicodeLower s)"

subsection \<open>Package strconv and the verb \<open>%d\<close>\<close>

definition isDigit :: "char \<Rightarrow> bool" where
  "isDigit c = (let n = (of_char c :: nat) in 48 \<le> n \<and> n \<le> 57)"

definition digitVal :: "char \<Rightarrow> nat" where
  "digitVal c = (of_char c :: nat) - 48"

datatype NumError = ErrSyntax | ErrRange

text \<open>\<open>strconv.ParseUint(s, 10, 64)\<close>: the digits are read from the left; a byte that
  is not a decimal digit is a syntax error with value 0, and a value beyond
  \<open>2^64 - 1\<close> is a range error with value \<open>2^64 - 1\<close>, reported as soon as it is
  reached.\<close>

fun ParseUint_loop :: "nat \<Rightarrow> string \<Rightarrow> nat \<times> NumError option" where
  "ParseUint_loop n [] = (n, None)"
| "ParseUint_loop n (c # cs) =
     (if \<not> isDigit c then (0, Some ErrSyntax)
      else if n \<ge> maxUint64 div 10 + 1 then (maxUint64, Some ErrRange)
      else let n1 = n * 10 + digitVal c in
        if n1 > maxUint64 then (maxUint64, Some ErrRange)
        else ParseUint_loop n1 cs)"

definition ParseUint :: "string \<Rightarrow> nat \<times> NumError option" where
  "ParseUint s = (if s = [] then (0, Some ErrSyntax) else ParseUint_loop 0 s)"

text \<open>\<open>strconv.ParseInt(s, 10, 0)\<close>: an optional sign, then \<open>ParseUint\<close>; a value
  outside the 64-bit range is a range error with the nearest bound as value.\<close>

definition ParseInt :: "string \<Rightarrow> int \<times> NumError option" where
  "ParseInt s =
     (if s = [] then (0, Some ErrSyntax)
      else
        let neg = (hd s = CHR ''-'');
            s' = (if hd s = CHR ''+'' \<or> hd s = CHR ''-'' then tl s else s);
            (un, err) = ParseUint s'
        in if err = Some ErrSyntax then (0, err)
           else if \<not> neg \<and> un \<ge> 9223372036854775808 then (maxInt64, Some ErrRange)
           else if neg \<and> un > 9223372036854775808 then (minInt64, Some ErrRange)
           else (if neg then - int un else int un, None))"

text \<open>\<open>strconv.Atoi\<close> is \<open>ParseInt(s, 10, 0)\<close> (its fast path for short strings
  computes the same value). The caller below drops the error, so only the value is
  kept.\<close>

definition Atoi :: "string \<Rightarrow> int" where
  "Atoi s = fst (ParseInt s)"

text \<open>The decimal digits of a number, as \<open>fmt\<close> prints them for \<open>%d\<close>.\<close>

fun digits10 :: "nat \<Rightarrow> string" where
  "digits10 n =
     (if n < 10 then [''0123456789'' ! n]
      else digits10 (n div 10) @ [''0123456789'' ! (n mod 10)])"

definition Itoa :: "int \<Rightarrow> string" where
  "Itoa i = (if i < 0 then CHR ''-'' # digits10 (nat (- i)) else digits10 (nat i))"

section \<open>Package program: the generated programme\<close>

text \<open>The structs \<open>program.Set\<close>, \<open>program.Day\<close> and \<open>program.Program\<close>. Two Go structs
  may name a field alike; the fields of a record are then prefixed with the name of the
  struct. \<open>config.Lift\<close> is a string type.\<close>

record ProgramSet =
  Set_Exercise :: string
  Set_Sets :: int
  Set_Reps :: string
  Set_Weight :: float64
  Set_Percentage :: float64

record Day =
  Day_Week :: int
  Day_DayNum :: int
  Day_MainLift :: string
  Day_Sets :: "ProgramSet list"

record Program =
  Days :: "Day list"

section \<open>Package hevy: the data of the remote service\<close>

record ExerciseTemplate =
  Template_ID :: string
  Template_Title :: string
  Template_Type :: string
  PrimaryMuscleGroup :: string
  IsCustom :: bool

datatype SetType = SetTypeWarmup | SetTypeNormal | SetTypeFailure | SetTypeDropset

text \<open>A pointer field that may be \<open>nil\<close> is an \<open>option\<close>; with \<open>omitempty\<close> the JSON
  field is present exactly when the pointer is not \<open>nil\<close>.\<close>

record RepRange =
  Start :: "int option"
  End :: "int option"

record RoutineSet =
  Type :: SetType
  WeightKg :: "float64 option"
  Reps :: "int option"
  RepRange :: "RepRange option"

record RoutineExercise =
  ExerciseTemplateID :: string
  SupersetID :: "int option"
  RestSeconds :: "int option"
  Exercise_Notes :: "string option"
  Exercise_Sets :: "RoutineSet list"

record CreateRoutineRequest =
  Title :: string
  FolderID :: "int option"
  Notes :: "string option"
  Exercises :: "RoutineExercise list"

record Routine =
  Routine_ID :: string
  Routine_Title :: string

record Folder =
  Folder_ID :: int
  Folder_Title :: string

record CreateFolderRequest =
  Request_Title :: string

record RoutineFull =
  Full_ID :: string
  Full_Title :: string
  Full_FolderID :: "int option"

record ExerciseTemplatesResponse =
  Templates_PageCount :: int
  ExerciseTemplates :: "ExerciseTemplate list"

record RoutinesResponse =
  Routines_PageCount :: int
  Routines :: "RoutineFull list"

record FoldersResponse =
  Folders_PageCount :: int
  RoutineFolders :: "Folder list"

section \<open>The converter\<close>

definition LbsToKg :: "float64 \<Rightarrow> float64" where
  "LbsToKg lbs = lbs * 0.453592"

text \<open>The loop of \<open>convertSets\<close>: \<open>for i := 0; i < set.Sets; i++\<close>, appending one
  \<open>RoutineSet\<close> in each round. \<open>setType\<close>, \<open>isAMRAP\<close> and \<open>reps\<close> are computed
  before the loop and never assigned in it.\<close>

definition convertSets_body :: "ProgramSet \<Rightarrow> SetType \<Rightarrow> bool \<Rightarrow> int \<Rightarrow> RoutineSet" where
  "convertSets_body s setType isAMRAP reps =
     (let routineSet = \<lparr>Type = setType, WeightKg = None, Reps = None, RepRange = None\<rparr>;
          routineSet =
            (if Set_Weight s > 0
             then routineSet\<lparr>WeightKg := Some (LbsToKg (Set_Weight s))\<rparr>
             else routineSet)
      in if reps > 0 then
           (if isAMRAP then
              (let endReps = wrap64 (reps * 2);
                   endReps = (if endReps < 10 then 10 else endReps)
               in routineSet\<lparr>RepRange := Some \<lparr>Start = Some reps, End = Some endReps\<rparr>\<rparr>)
            else routineSet\<lparr>Reps := Some reps\<rparr>)
         else routineSet)"

function convertSets_loop ::
  "ProgramSet \<Rightarrow> SetType \<Rightarrow> bool \<Rightarrow> int \<Rightarrow> int \<Rightarrow> RoutineSet list \<Rightarrow> RoutineSet list" where
  "convertSets_loop s setType isAMRAP reps i sets =
     (if i < Set_Sets s
      then convertSets_loop s setType isAMRAP reps (i + 1)
             (sets @ [convertSets_body s setType isAMRAP reps])
      else sets)"
  by pat_completeness auto
termination
  by (relation "measure (\<lambda>(s, setType, isAMRAP, reps, i, sets). nat (Set_Sets s - i))") auto

definition convertSets :: "ProgramSet \<Rightarrow> RoutineSet list" where
  "convertSets s =
     (let setType =
            (if Set_Percentage s > 0 \<and> Set_Percentage s \<le> 60
             then SetTypeWarmup else SetTypeNormal);
          isAMRAP = HasSuffix (Set_Reps s) ''+'';
          repsStr = TrimSuffix (Set_Reps s) ''+'';
          reps = Atoi repsStr
      in convertSets_loop s setType isAMRAP reps 0 [])"


section \<open>The exercise resolver\<close>

text \<open>\<open>exerciseAliases\<close>, the static table from a lower-case exercise name to the
  remote names accepted for it, in the order of the source.\<close>

definition exerciseAliases :: "string \<rightharpoonup> string list" where
  "exerciseAliases = map_of
     [(''squat'', [''barbell squat'', ''squat (barbell)'']),
      (''bench press'', [''barbell bench press'', ''bench press (barbell)'']),
      (''deadlift'', [''barbell deadlift'', ''deadlift (barbell)'']),
      (''overhead press'',
         [''overhead press (barbell)'', ''barbell overhead press'', ''shoulder press (barbell)'']),
      (''barbell row'', [''bent over row (barbell)'', ''barbell bent over row'', ''bent over row'']),
      (''dumbbell press'',
         [''dumbbell bench press'', ''bench press (dumbbell)'', ''dumbbell chest press'']),
      (''dumbbell row'', [''dumbbell row'', ''bent over row (dumbbell)'', ''one arm dumbbell row'']),
      (''leg curl'', [''lying leg curl'', ''leg curl (machine)'', ''seated leg curl'']),
      (''leg press'', [''leg press (machine)'', ''leg press'']),
      (''tricep pushdown'', [''tricep pushdown'', ''triceps pushdown'', ''cable pushdown'']),
      (''cable fly'', [''cable fly'', ''cable chest fly'', ''cable crossover'']),
      (''good morning'', [''good morning'', ''good morning (barbell)'']),
      (''hanging leg raise'', [''hanging leg raise'', ''hanging knee raise'']),
      (''back extension'', [''back extension'', ''hyperextension'', ''back extension (machine)'']),
      (''lateral raise'', [''lateral raise (dumbbell)'', ''dumbbell lateral raise'', ''lateral raise'']),
      (''face pull'', [''face pull'', ''face pull (cable)'']),
      (''rear delt fly'', [''reverse fly (dumbbell)'', ''rear delt fly'', ''reverse fly'']),
      (''pull-up'', [''pull up'', ''pull-up'', ''pullup'']),
      (''dips'', [''dip'', ''tricep dip'', ''chest dip'']),
      (''lunges'', [''lunge (dumbbell)'', ''walking lunge'', ''lunge (barbell)'']),
      (''bulgarian split squat'', [''bulgarian split squat'', ''split squat''])]"

text \<open>The mapper holds the catalog index, a Go map from the lower-case title to the
  template.\<close>

record ExerciseMapper =
  templates :: "string \<rightharpoonup> ExerciseTemplate"

fun NewExerciseMapper_loop ::
  "(string \<Rightarrow> string) \<Rightarrow> ExerciseTemplate list \<Rightarrow> (string \<rightharpoonup> ExerciseTemplate) \<Rightarrow>
   (string \<rightharpoonup> ExerciseTemplate)" where
  "NewExerciseMapper_loop unicodeLower [] m = m"
| "NewExerciseMapper_loop unicodeLower (t # ts) m =
     NewExerciseMapper_loop unicodeLower ts (m(ToLower unicodeLower (Template_Title t) \<mapsto> t))"

definition NewExerciseMapper :: "(string \<Rightarrow> string) \<Rightarrow> ExerciseTemplate list \<Rightarrow> ExerciseMapper" where
  "NewExerciseMapper unicodeLower ts =
     \<lparr>templates = NewExerciseMapper_loop unicodeLower ts Map.empty\<rparr>"

text \<open>The loop over the aliases of a name: the first alias that is a key of the index
  wins.\<close>

fun FindTemplate_aliases ::
  "(string \<rightharpoonup> ExerciseTemplate) \<Rightarrow> string list \<Rightarrow> ExerciseTemplate option" where
  "FindTemplate_aliases m [] = None"
| "FindTemplate_aliases m (alias # aliases) =
     (case m alias of Some t \<Rightarrow> Some t | None \<Rightarrow> FindTemplate_aliases m aliases)"

text \<open>The fallback loop \<open>for title, t := range m.templates\<close>. Go does not fix the order
  in which \<open>range\<close> visits the entries of a map, so the order is an argument: the list
  \<open>order\<close> of the keys as this execution of the loop visits them. A string that is not a
  key is never visited.\<close>

fun FindTemplate_partial ::
  "(string \<rightharpoonup> ExerciseTemplate) \<Rightarrow> string \<Rightarrow> string list \<Rightarrow> ExerciseTemplate option" where
  "FindTemplate_partial m lower [] = None"
| "FindTemplate_partial m lower (title # order) =
     (case m title of
        None \<Rightarrow> FindTemplate_partial m lower order
      | Some t \<Rightarrow>
          if Contains title lower \<or> Contains lower title then Some t
          else FindTemplate_partial m lower order)"

definition FindTemplate ::
  "(string \<Rightarrow> string) \<Rightarrow> ExerciseMapper \<Rightarrow> string list \<Rightarrow> string \<Rightarrow> error + ExerciseTemplate" where
  "FindTemplate unicodeLower m order name =
     (let lower = ToLower unicodeLower name in
      case templates m lower of
        Some t \<Rightarrow> Inr t
      | None \<Rightarrow>
          (case (case exerciseAliases lower of
                   Some aliases \<Rightarrow> FindTemplate_aliases (templates m) aliases
                 | None \<Rightarrow> None) of
             Some t \<Rightarrow> Inr t
           | None \<Rightarrow>
               (case FindTemplate_partial (templates m) lower order of
                  Some t \<Rightarrow> Inr t
                | None \<Rightarrow> Inl (''no template found for exercise: '' @ name))))"

text \<open>The resolution stages in the words of the specification, for comparison with
  \<open>FindTemplate\<close>: the first alias of the (lower-case) name, in the order of the table,
  that is present in the catalog index; and the entries of the index that qualify for
  the substring match.\<close>

definition spec_firstAlias ::
  "(string \<rightharpoonup> ExerciseTemplate) \<Rightarrow> string \<Rightarrow> ExerciseTemplate option" where
  "spec_firstAlias index lower =
     (case exerciseAliases lower of
        None \<Rightarrow> None
      | Some aliases \<Rightarrow>
          (case filter (\<lambda>a. a \<in> dom index) aliases of [] \<Rightarrow> None | a # _ \<Rightarrow> index a))"

definition spec_substring :: "(string \<rightharpoonup> ExerciseTemplate) \<Rightarrow> string \<Rightarrow> ExerciseTemplate set" where
  "spec_substring index lower =
     {t. \<exists>title. index title = Some t \<and> (Contains title lower \<or> Contains lower title)}"

section \<open>Conversion of a day\<close>

text \<open>A function of the converter returns a value, returns an error, or panics (a
  \<open>nil\<close> pointer dereference).\<close>

datatype 'a outcome = Ok 'a | Err error | Panic

text \<open>The loop of \<open>ConvertDayToRoutine\<close> over \<open>day.Sets\<close>, with the loop variables
  \<open>exercises\<close>, \<open>currentExercise\<close> and \<open>currentRoutineExercise\<close> (a pointer, \<open>nil\<close>
  at first). Three arguments are not in the source. \<open>unicodeLower\<close> is the mapping that
  \<open>strings.ToLower\<close> applies beyond ASCII. \<open>looked\<close> lists the names on which
  \<open>FindTemplate\<close> has been invoked so far, in order: it is a record of the calls, never
  read by the program. \<open>orders\<close> gives, for the \<open>n\<close>th invocation of \<open>FindTemplate\<close>, the
  order in which its fallback loop would visit the catalog index.\<close>

fun ConvertDayToRoutine_loop ::
  "(string \<Rightarrow> string) \<Rightarrow> ExerciseMapper \<Rightarrow> (nat \<Rightarrow> string list) \<Rightarrow> ProgramSet list \<Rightarrow> RoutineExercise list \<Rightarrow>
   string \<Rightarrow> RoutineExercise option \<Rightarrow> string list \<Rightarrow>
   (RoutineExercise list \<times> RoutineExercise option) outcome \<times> string list" where
  "ConvertDayToRoutine_loop unicodeLower mapper orders [] exercises currentExercise current looked =
     (Ok (exercises, current), looked)"
| "ConvertDayToRoutine_loop unicodeLower mapper orders (s # sets) exercises currentExercise current looked =
     (if Set_Exercise s \<noteq> currentExercise then
        (let exercises = (case current of Some e \<Rightarrow> exercises @ [e] | None \<Rightarrow> exercises) in
         case FindTemplate unicodeLower mapper (orders (length looked)) (Set_Exercise s) of
           Inl err \<Rightarrow>
             (Err (''failed to find template for '' @ Set_Exercise s @ '': '' @ err),
              looked @ [Set_Exercise s])
         | Inr template \<Rightarrow>
             (let e = \<lparr>ExerciseTemplateID = Template_ID template, SupersetID = None,
                        RestSeconds = None, Exercise_Notes = None, Exercise_Sets = []\<rparr>;
                  e = e\<lparr>Exercise_Sets := Exercise_Sets e @ convertSets s\<rparr>
              in ConvertDayToRoutine_loop unicodeLower mapper orders sets exercises (Set_Exercise s) (Some e)
                   (looked @ [Set_Exercise s])))
      else
        (case current of
           None \<Rightarrow> (Panic, looked)
         | Some e \<Rightarrow>
             ConvertDayToRoutine_loop unicodeLower mapper orders sets exercises currentExercise
               (Some (e\<lparr>Exercise_Sets := Exercise_Sets e @ convertSets s\<rparr>)) looked))"

definition ConvertDayToRoutine ::
  "(string \<Rightarrow> string) \<Rightarrow> Day \<Rightarrow> ExerciseMapper \<Rightarrow> (nat \<Rightarrow> string list) \<Rightarrow> string list \<Rightarrow>
   CreateRoutineRequest outcome \<times> string list" where
  "ConvertDayToRoutine unicodeLower day mapper orders looked =
     (let title = ''531 BBB W'' @ Itoa (Day_Week day) @ ''D'' @ Itoa (Day_DayNum day) @ '' - ''
                  @ Day_MainLift day
      in case ConvertDayToRoutine_loop unicodeLower mapper orders (Day_Sets day) [] [] None looked of
           (Err err, looked') \<Rightarrow> (Err err, looked')
         | (Panic, looked') \<Rightarrow> (Panic, looked')
         | (Ok (exercises, current), looked') \<Rightarrow>
             (let exercises = (case current of Some e \<Rightarrow> exercises @ [e] | None \<Rightarrow> exercises)
              in (Ok \<lparr>Title = title, FolderID = None, Notes = None, Exercises = exercises\<rparr>,
                  looked')))"

fun ConvertProgramToRoutines_loop ::
  "(string \<Rightarrow> string) \<Rightarrow> Day list \<Rightarrow> ExerciseMapper \<Rightarrow> (nat \<Rightarrow> string list) \<Rightarrow> CreateRoutineRequest list \<Rightarrow>
   string list \<Rightarrow> CreateRoutineRequest list outcome \<times> string list" where
  "ConvertProgramToRoutines_loop unicodeLower [] mapper orders routines looked = (Ok routines, looked)"
| "ConvertProgramToRoutines_loop unicodeLower (day # days) mapper orders routines looked =
     (case ConvertDayToRoutine unicodeLower day mapper orders looked of
        (Err err, looked') \<Rightarrow> (Err err, looked')
      | (Panic, looked') \<Rightarrow> (Panic, looked')
      | (Ok routine, looked') \<Rightarrow>
          ConvertProgramToRoutines_loop unicodeLower days mapper orders (routines @ [routine]) looked')"

definition ConvertProgramToRoutines ::
  "(string \<Rightarrow> string) \<Rightarrow> Program \<Rightarrow> ExerciseMapper \<Rightarrow> (nat \<Rightarrow> string list) \<Rightarrow> string list \<Rightarrow>
   CreateRoutineRequest list outcome \<times> string list" where
  "ConvertProgramToRoutines unicodeLower prog mapper orders looked =
     ConvertProgramToRoutines_loop unicodeLower (Days prog) mapper orders [] looked"

section \<open>The remote client\<close>

text \<open>
  The client talks to the remote service through the Go standard library. What the
  library and the service do is the environment of the program, a record of functions
  over a state \<open>'w\<close> of the world outside the program:
  \<^item> \<open>jsonMarshal\<close>: the error of \<open>json.Marshal\<close> on a request document, if any. The
    document itself is kept as a value, not as bytes.
  \<^item> \<open>newRequest\<close>: the error of \<open>http.NewRequest\<close> for a method and a URL, if any.
  \<^item> \<open>httpDo\<close>: \<open>httpClient.Do\<close>, a transport error or a response with its status code and
    its body as \<open>io.ReadAll\<close> returns it; it changes the world.
  \<^item> \<open>unmarshalRoutine\<close>, \<open>unmarshalFolder\<close>, \<open>decodeTemplates\<close>, \<open>decodeFolders\<close>,
    \<open>decodeRoutines\<close>: \<open>json.Unmarshal\<close> and \<open>Decode\<close> of a response body into the Go
    value the call site names, or their error.
  \<^item> \<open>timeSleep\<close>: \<open>time.Sleep\<close>, for a duration in nanoseconds; time passing may change
    the world.
\<close>

datatype Wrapper = RoutineWrapper CreateRoutineRequest | FolderWrapper CreateFolderRequest

record Request =
  Method :: string
  URL :: string
  Header :: "(string \<times> string) list"
  Body :: "Wrapper option"

record Response =
  StatusCode :: int
  ResponseBody :: string

record 'w Env =
  jsonMarshal :: "Wrapper \<Rightarrow> error option"
  newRequest :: "string \<Rightarrow> string \<Rightarrow> error option"
  httpDo :: "Request \<Rightarrow> 'w \<Rightarrow> (error + Response) \<times> 'w"
  unmarshalRoutine :: "string \<Rightarrow> error + Routine"
  unmarshalFolder :: "string \<Rightarrow> error + Folder"
  decodeTemplates :: "string \<Rightarrow> error + ExerciseTemplatesResponse"
  decodeFolders :: "string \<Rightarrow> error + FoldersResponse"
  decodeRoutines :: "string \<Rightarrow> error + RoutinesResponse"
  timeSleep :: "int \<Rightarrow> 'w \<Rightarrow> 'w"

record Client =
  apiKey :: string

definition NewClient :: "string \<Rightarrow> Client" where
  "NewClient key = \<lparr>apiKey = key\<rparr>"

definition baseURL :: string where
  "baseURL = ''https://api.hevyapp.com/v1''"

definition StatusOK :: int where
  "StatusOK = 200"

definition StatusCreated :: int where
  "StatusCreated = 201"

text \<open>\<open>fmt.Errorf("API error (status %d): %s", resp.StatusCode, string(body))\<close>.\<close>

definition apiError :: "Response \<Rightarrow> error" where
  "apiError resp = ''API error (status '' @ Itoa (StatusCode resp) @ ''): '' @ ResponseBody resp"

definition getRequest :: "Client \<Rightarrow> string \<Rightarrow> Request" where
  "getRequest c url =
     \<lparr>Method = ''GET'', URL = url,
      Header = [(''api-key'', apiKey c), (''Accept'', ''application/json'')], Body = None\<rparr>"

definition sendRequest :: "Client \<Rightarrow> string \<Rightarrow> string \<Rightarrow> Wrapper \<Rightarrow> Request" where
  "sendRequest c method url wrapper =
     \<lparr>Method = method, URL = url,
      Header = [(''api-key'', apiKey c), (''Content-Type'', ''application/json''),
                (''Accept'', ''application/json'')],
      Body = Some wrapper\<rparr>"

text \<open>A request of the client is answered with a response when its document can be
  marshalled, the request can be built, and the transport returns that response.\<close>

definition answered :: "'w Env \<Rightarrow> Request \<Rightarrow> 'w \<Rightarrow> Response \<Rightarrow> 'w \<Rightarrow> bool" where
  "answered env req w resp w' =
     ((case Body req of None \<Rightarrow> True | Some wrapper \<Rightarrow> jsonMarshal env wrapper = None) \<and>
      newRequest env (Method req) (URL req) = None \<and>
      httpDo env req w = (Inr resp, w'))"

subsection \<open>The paginated reads\<close>

text \<open>Each read is \<open>for { ... if page >= result.PageCount { break }; page++ }\<close>: the
  service decides when it ends, so a read is a partial function and \<open>None\<close> stands for
  a read that never returns.\<close>

partial_function (option) GetExerciseTemplates_loop ::
  "'w Env \<Rightarrow> Client \<Rightarrow> int \<Rightarrow> ExerciseTemplate list \<Rightarrow> 'w \<Rightarrow>
   ((error + ExerciseTemplate list) \<times> 'w) option" where
  "GetExerciseTemplates_loop env c page allTemplates w =
     (let url = baseURL @ ''/exercise_templates?page='' @ Itoa page @ ''&pageSize=100'' in
      case newRequest env ''GET'' url of
        Some err \<Rightarrow> Some (Inl (''failed to create request: '' @ err), w)
      | None \<Rightarrow>
          (case httpDo env (getRequest c url) w of
             (Inl err, w') \<Rightarrow> Some (Inl (''failed to fetch exercise templates: '' @ err), w')
           | (Inr resp, w') \<Rightarrow>
               if StatusCode resp \<noteq> StatusOK then Some (Inl (apiError resp), w')
               else
                 (case decodeTemplates env (ResponseBody resp) of
                    Inl err \<Rightarrow> Some (Inl (''failed to decode response: '' @ err), w')
                  | Inr result \<Rightarrow>
                      (let allTemplates = allTemplates @ ExerciseTemplates result in
                       if page \<ge> Templates_PageCount result then Some (Inr allTemplates, w')
                       else GetExerciseTemplates_loop env c (page + 1) allTemplates w'))))"

definition GetExerciseTemplates ::
  "'w Env \<Rightarrow> Client \<Rightarrow> 'w \<Rightarrow> ((error + ExerciseTemplate list) \<times> 'w) option" where
  "GetExerciseTemplates env c w = GetExerciseTemplates_loop env c 1 [] w"

partial_function (option) GetFolders_loop ::
  "'w Env \<Rightarrow> Client \<Rightarrow> int \<Rightarrow> Folder list \<Rightarrow> 'w \<Rightarrow> ((error + Folder list) \<times> 'w) option" where
  "GetFolders_loop env c page allFolders w =
     (let url = baseURL @ ''/routine_folders?page='' @ Itoa page @ ''&pageSize=10'' in
      case newRequest env ''GET'' url of
        Some err \<Rightarrow> Some (Inl (''failed to create request: '' @ err), w)
      | None \<Rightarrow>
          (case httpDo env (getRequest c url) w of
             (Inl err, w') \<Rightarrow> Some (Inl (''failed to fetch folders: '' @ err), w')
           | (Inr resp, w') \<Rightarrow>
               if StatusCode resp \<noteq> StatusOK then Some (Inl (apiError resp), w')
               else
                 (case decodeFolders env (ResponseBody resp) of
                    Inl err \<Rightarrow> Some (Inl (''failed to decode response: '' @ err), w')
                  | Inr result \<Rightarrow>
                      (let allFolders = allFolders @ RoutineFolders result in
                       if page \<ge> Folders_PageCount result then Some (Inr allFolders, w')
                       else GetFolders_loop env c (page + 1) allFolders w'))))"

definition GetFolders :: "'w Env \<Rightarrow> Client \<Rightarrow> 'w \<Rightarrow> ((error + Folder list) \<times> 'w) option" where
  "GetFolders env c w = GetFolders_loop env c 1 [] w"

partial_function (option) GetRoutines_loop ::
  "'w Env \<Rightarrow> Client \<Rightarrow> int \<Rightarrow> RoutineFull list \<Rightarrow> 'w \<Rightarrow>
   ((error + RoutineFull list) \<times> 'w) option" where
  "GetRoutines_loop env c page allRoutines w =
     (let url = baseURL @ ''/routines?page='' @ Itoa page @ ''&pageSize=10'' in
      case newRequest env ''GET'' url of
        Some err \<Rightarrow> Some (Inl (''failed to create request: '' @ err), w)
      | None \<Rightarrow>
          (case httpDo env (getRequest c url) w of
             (Inl err, w') \<Rightarrow> Some (Inl (''failed to fetch routines: '' @ err), w')
           | (Inr resp, w') \<Rightarrow>
               if StatusCode resp \<noteq> StatusOK then Some (Inl (apiError resp), w')
               else
                 (case decodeRoutines env (ResponseBody resp) of
                    Inl err \<Rightarrow> Some (Inl (''failed to decode response: '' @ err), w')
                  | Inr result \<Rightarrow>
                      (let allRoutines = allRoutines @ Routines result in
                       if page \<ge> Routines_PageCount result then Some (Inr allRoutines, w')
                       else GetRoutines_loop env c (page + 1) allRoutines w'))))"

definition GetRoutines ::
  "'w Env \<Rightarrow> Client \<Rightarrow> 'w \<Rightarrow> ((error + RoutineFull list) \<times> 'w) option" where
  "GetRoutines env c w = GetRoutines_loop env c 1 [] w"

subsection \<open>The writes\<close>

definition CreateRoutine ::
  "'w Env \<Rightarrow> Client \<Rightarrow> CreateRoutineRequest \<Rightarrow> 'w \<Rightarrow> (error + Routine) \<times> 'w" where
  "CreateRoutine env c routine w =
     (let url = baseURL @ ''/routines'';
          wrapper = RoutineWrapper routine
      in case jsonMarshal env wrapper of
           Some err \<Rightarrow> (Inl (''failed to marshal request: '' @ err), w)
         | None \<Rightarrow>
             (case newRequest env ''POST'' url of
                Some err \<Rightarrow> (Inl (''failed to create request: '' @ err), w)
              | None \<Rightarrow>
                  (case httpDo env (sendRequest c ''POST'' url wrapper) w of
                     (Inl err, w') \<Rightarrow> (Inl (''failed to create routine: '' @ err), w')
                   | (Inr resp, w') \<Rightarrow>
                       if StatusCode resp \<noteq> StatusCreated \<and> StatusCode resp \<noteq> StatusOK
                       then (Inl (apiError resp), w')
                       else
                         (case unmarshalRoutine env (ResponseBody resp) of
                            Inl err \<Rightarrow>
                              (Inr \<lparr>Routine_ID = [], Routine_Title = Title routine\<rparr>, w')
                          | Inr result \<Rightarrow> (Inr result, w')))))"

definition CreateFolder :: "'w Env \<Rightarrow> Client \<Rightarrow> string \<Rightarrow> 'w \<Rightarrow> (error + Folder) \<times> 'w" where
  "CreateFolder env c title w =
     (let url = baseURL @ ''/routine_folders'';
          wrapper = FolderWrapper \<lparr>Request_Title = title\<rparr>
      in case jsonMarshal env wrapper of
           Some err \<Rightarrow> (Inl (''failed to marshal request: '' @ err), w)
         | None \<Rightarrow>
             (case newRequest env ''POST'' url of
                Some err \<Rightarrow> (Inl (''failed to create request: '' @ err), w)
              | None \<Rightarrow>
                  (case httpDo env (sendRequest c ''POST'' url wrapper) w of
                     (Inl err, w') \<Rightarrow> (Inl (''failed to create folder: '' @ err), w')
                   | (Inr resp, w') \<Rightarrow>
                       if StatusCode resp \<noteq> StatusCreated \<and> StatusCode resp \<noteq> StatusOK
                       then (Inl (apiError resp), w')
                       else
                         (case unmarshalFolder env (ResponseBody resp) of
                            Inl err \<Rightarrow> (Inl (''failed to decode folder response: '' @ err), w')
                          | Inr result \<Rightarrow> (Inr result, w')))))"

definition UpdateRoutine ::
  "'w Env \<Rightarrow> Client \<Rightarrow> string \<Rightarrow> CreateRoutineRequest \<Rightarrow> 'w \<Rightarrow> (error + Routine) \<times> 'w" where
  "UpdateRoutine env c routineID routine w =
     (let url = baseURL @ ''/routines/'' @ routineID;
          wrapper = RoutineWrapper routine
      in case jsonMarshal env wrapper of
           Some err \<Rightarrow> (Inl (''failed to marshal request: '' @ err), w)
         | None \<Rightarrow>
             (case newRequest env ''PUT'' url of
                Some err \<Rightarrow> (Inl (''failed to create request: '' @ err), w)
              | None \<Rightarrow>
                  (case httpDo env (sendRequest c ''PUT'' url wrapper) w of
                     (Inl err, w') \<Rightarrow> (Inl (''failed to update routine: '' @ err), w')
                   | (Inr resp, w') \<Rightarrow>
                       if StatusCode resp \<noteq> StatusOK
                       then (Inl (apiError resp), w')
                       else
                         (case unmarshalRoutine env (ResponseBody resp) of
                            Inl err \<Rightarrow>
                              (Inr \<lparr>Routine_ID = [], Routine_Title = Title routine\<rparr>, w')
                          | Inr result \<Rightarrow> (Inr result, w')))))"

section \<open>The sync orchestrator\<close>

definition Second :: int where
  "Second = 1000000000"

definition Millisecond :: int where
  "Millisecond = 1000000"

definition isRateLimitError :: "error option \<Rightarrow> bool" where
  "isRateLimitError err =
     (case err of
        None \<Rightarrow> False
      | Some errStr \<Rightarrow> Contains errStr ''429'' \<or> Contains errStr ''rate limit'')"

text \<open>
  The orchestrator acts on the world through the client and \<open>time.Sleep\<close> only; the
  world is threaded through its loops. Console output is not modelled, except that a
  successful run returns the two counters that its last \<open>Printf\<close> reports.
\<close>

definition errorOf :: "error + 'a \<Rightarrow> error option" where
  "errorOf r = (case r of Inl err \<Rightarrow> Some err | Inr _ \<Rightarrow> None)"

text \<open>The lookup maps: \<open>folderByName[f.Title] = f.ID\<close> and
  \<open>routineByTitle[r.Title] = r.ID\<close> over the fetched lists, a later entry replacing an
  earlier one with the same title.\<close>

fun uploadToHevy_folderByName :: "Folder list \<Rightarrow> (string \<rightharpoonup> int) \<Rightarrow> (string \<rightharpoonup> int)" where
  "uploadToHevy_folderByName [] folderByName = folderByName"
| "uploadToHevy_folderByName (f # fs) folderByName =
     uploadToHevy_folderByName fs (folderByName(Folder_Title f \<mapsto> Folder_ID f))"

fun uploadToHevy_routineByTitle ::
  "RoutineFull list \<Rightarrow> (string \<rightharpoonup> string) \<Rightarrow> (string \<rightharpoonup> string)" where
  "uploadToHevy_routineByTitle [] routineByTitle = routineByTitle"
| "uploadToHevy_routineByTitle (r # rs) routineByTitle =
     uploadToHevy_routineByTitle rs (routineByTitle(Full_Title r \<mapsto> Full_ID r))"

text \<open>\<open>fmt.Sprintf("531 BBB Week %d", week)\<close>, the title of the folder of a week.\<close>

definition weekFolderName :: "int \<Rightarrow> string" where
  "weekFolderName week = ''531 BBB Week '' @ Itoa week"

text \<open>The loop \<open>for week := 1; week <= 4; week++\<close> that finds or creates the folder of
  each week.\<close>

function uploadToHevy_weeks ::
  "'w Env \<Rightarrow> Client \<Rightarrow> (string \<rightharpoonup> int) \<Rightarrow> int \<Rightarrow> (int \<rightharpoonup> int) \<Rightarrow> 'w \<Rightarrow>
   (error + (int \<rightharpoonup> int)) \<times> 'w" where
  "uploadToHevy_weeks env c folderByName week weekFolders w =
     (if week \<le> 4 then
        (let folderName = weekFolderName week in
         case folderByName folderName of
           Some folderID \<Rightarrow>
             uploadToHevy_weeks env c folderByName (week + 1) (weekFolders(week \<mapsto> folderID)) w
         | None \<Rightarrow>
             (case CreateFolder env c folderName w of
                (Inl err, w') \<Rightarrow>
                  (Inl (''failed to create folder '' @ folderName @ '': '' @ err), w')
              | (Inr folder, w') \<Rightarrow>
                  uploadToHevy_weeks env c folderByName (week + 1)
                    (weekFolders(week \<mapsto> Folder_ID folder)) w'))
      else (Inr weekFolders, w))"
  by pat_completeness auto
termination
  by (relation "measure (\<lambda>(env, c, folderByName, week, weekFolders, w). nat (5 - week))") auto

text \<open>One round of the retry loop \<open>for attempt := 0; attempt < 5; attempt++\<close>: the sleep
  before every attempt but the first, then the update or the creation. It yields the
  new values of \<open>err\<close> and \<open>isUpdate\<close>.\<close>

definition uploadToHevy_attempt ::
  "'w Env \<Rightarrow> Client \<Rightarrow> string option \<Rightarrow> CreateRoutineRequest \<Rightarrow> int \<Rightarrow> 'w \<Rightarrow>
   (error option \<times> bool) \<times> 'w" where
  "uploadToHevy_attempt env c existing routine attempt w0 =
     (let w = (if attempt > 0
               then (let delay = 10 * 2 ^ nat attempt * Second in timeSleep env delay w0)
               else w0)
      in case existing of
           Some existingID \<Rightarrow>
             (let updateRoutine = routine\<lparr>FolderID := None\<rparr> in
              case UpdateRoutine env c existingID updateRoutine w of
                (r, w') \<Rightarrow> ((errorOf r, True), w'))
         | None \<Rightarrow>
             (case CreateRoutine env c routine w of
                (r, w') \<Rightarrow> ((errorOf r, False), w')))"

function uploadToHevy_attempts ::
  "'w Env \<Rightarrow> Client \<Rightarrow> string option \<Rightarrow> CreateRoutineRequest \<Rightarrow> int \<Rightarrow> error option \<Rightarrow> bool \<Rightarrow>
   'w \<Rightarrow> (error option \<times> bool) \<times> 'w" where
  "uploadToHevy_attempts env c existing routine attempt err isUpdate w =
     (if attempt < 5 then
        (case uploadToHevy_attempt env c existing routine attempt w of
           ((err', isUpdate'), w') \<Rightarrow>
             if err' = None \<or> \<not> isRateLimitError err' then ((err', isUpdate'), w')
             else uploadToHevy_attempts env c existing routine (attempt + 1) err' isUpdate' w')
      else ((err, isUpdate), w))"
  by pat_completeness auto
termination
  by (relation "measure (\<lambda>(env, c, existing, routine, attempt, err, isUpdate, w).
        nat (5 - attempt))") auto

text \<open>The loop \<open>for i, routine := range routines\<close>. An index of a map that is not a key
  gives the zero value, so \<open>weekFolders[week]\<close> is 0 for a week without an entry.\<close>

fun uploadToHevy_routines ::
  "'w Env \<Rightarrow> Client \<Rightarrow> (int \<rightharpoonup> int) \<Rightarrow> (string \<rightharpoonup> string) \<Rightarrow> int \<Rightarrow>
   CreateRoutineRequest list \<Rightarrow> int \<Rightarrow> int \<Rightarrow> 'w \<Rightarrow> (error + int \<times> int) \<times> 'w" where
  "uploadToHevy_routines env c weekFolders routineByTitle i [] created updated w =
     (Inr (created, updated), w)"
| "uploadToHevy_routines env c weekFolders routineByTitle i (routine # routines) created updated w =
     (let week = (i div 4) + 1;
          folderID = (case weekFolders week of Some folderID \<Rightarrow> folderID | None \<Rightarrow> 0);
          routine = routine\<lparr>FolderID := Some folderID\<rparr>
      in case uploadToHevy_attempts env c (routineByTitle (Title routine)) routine 0 None False w of
           ((Some err, isUpdate), w') \<Rightarrow>
             (Inl (''failed to sync routine '' @ Title routine @ '': '' @ err), w')
         | ((None, isUpdate), w') \<Rightarrow>
             (let w'' = timeSleep env (300 * Millisecond) w'
              in if isUpdate
                 then uploadToHevy_routines env c weekFolders routineByTitle (i + 1) routines
                        created (updated + 1) w''
                 else uploadToHevy_routines env c weekFolders routineByTitle (i + 1) routines
                        (created + 1) updated w''))"

text \<open>\<open>uploadToHevy\<close> from the lookup maps on (the source's lines 124 to 207), for the
  folders and routines that the two reads at its start returned.\<close>

definition uploadToHevy_sync ::
  "'w Env \<Rightarrow> Client \<Rightarrow> Folder list \<Rightarrow> RoutineFull list \<Rightarrow> CreateRoutineRequest list \<Rightarrow>
   'w \<Rightarrow> (error + int \<times> int) \<times> 'w" where
  "uploadToHevy_sync env c existingFolders existingRoutines routines w =
     (let folderByName = uploadToHevy_folderByName existingFolders Map.empty;
          routineByTitle = uploadToHevy_routineByTitle existingRoutines Map.empty
      in case uploadToHevy_weeks env c folderByName 1 Map.empty w of
           (Inl err, w') \<Rightarrow> (Inl err, w')
         | (Inr weekFolders, w') \<Rightarrow>
             uploadToHevy_routines env c weekFolders routineByTitle 0 routines 0 0 w')"

text \<open>\<open>uploadToHevy\<close> from the two reads on (lines 113 to 207), for the routines that
  the conversion produced.\<close>

definition uploadToHevy_remote ::
  "'w Env \<Rightarrow> Client \<Rightarrow> CreateRoutineRequest list \<Rightarrow> 'w \<Rightarrow>
   ((error + int \<times> int) \<times> 'w) option" where
  "uploadToHevy_remote env c routines w =
     (case GetFolders env c w of
        None \<Rightarrow> None
      | Some (Inl err, w') \<Rightarrow> Some (Inl (''failed to fetch folders: '' @ err), w')
      | Some (Inr existingFolders, w') \<Rightarrow>
          (case GetRoutines env c w' of
             None \<Rightarrow> None
           | Some (Inl err, w'') \<Rightarrow> Some (Inl (''failed to fetch routines: '' @ err), w'')
           | Some (Inr existingRoutines, w'') \<Rightarrow>
               Some (uploadToHevy_sync env c existingFolders existingRoutines routines w'')))"

text \<open>The whole of \<open>uploadToHevy\<close>, for the API key that the prompt returned. A panic
  of the conversion ends the program.\<close>

definition uploadToHevy ::
  "'w Env \<Rightarrow> (string \<Rightarrow> string) \<Rightarrow> string \<Rightarrow> Program \<Rightarrow> (nat \<Rightarrow> string list) \<Rightarrow> 'w \<Rightarrow>
   ((int \<times> int) outcome \<times> 'w) option" where
  "uploadToHevy env unicodeLower key prog orders w =
     (let client = NewClient key in
      case GetExerciseTemplates env client w of
        None \<Rightarrow> None
      | Some (Inl err, w') \<Rightarrow>
          Some (Err (''failed to fetch exercise templates: '' @ err), w')
      | Some (Inr templateList, w') \<Rightarrow>
          (let mapper = NewExerciseMapper unicodeLower templateList in
           case fst (ConvertProgramToRoutines unicodeLower prog mapper orders []) of
             Panic \<Rightarrow> Some (Panic, w')
           | Err err \<Rightarrow> Some (Err (''failed to convert program: '' @ err), w')
           | Ok routines \<Rightarrow>
               (case uploadToHevy_remote env client routines w' of
                  None \<Rightarrow> None
                | Some (Inl err, w'') \<Rightarrow> Some (Err err, w'')
                | Some (Inr counts, w'') \<Rightarrow> Some (Ok counts, w''))))"

section \<open>Observation of a run\<close>

text \<open>
  The program acts on the world through two functions of the environment only:
  \<open>httpDo\<close>, which sends a request, and \<open>timeSleep\<close>. To state which requests a run
  sends and for how long it sleeps, an environment is run with a log beside its world:
  in \<open>recording env\<close> the world is a pair of a world of \<open>env\<close> and the list of the calls
  made so far, to which \<open>httpDo\<close> appends the request it is given with the answer it
  returns, and \<open>timeSleep\<close> the duration it is given. All else is as in \<open>env\<close>. The log is
  written by the environment, not by the program: the definitions above are the same for
  every type of world, and change a world by \<open>httpDo\<close> and \<open>timeSleep\<close> only.
\<close>

datatype Call = HttpDo Request "error + Response" | Sleep int

definition recording :: "'w Env \<Rightarrow> ('w \<times> Call list) Env" where
  "recording env =
     \<lparr>jsonMarshal = jsonMarshal env,
      newRequest = newRequest env,
      httpDo = (\<lambda>req (w, calls).
        case httpDo env req w of (reply, w') \<Rightarrow> (reply, (w', calls @ [HttpDo req reply]))),
      unmarshalRoutine = unmarshalRoutine env,
      unmarshalFolder = unmarshalFolder env,
      decodeTemplates = decodeTemplates env,
      decodeFolders = decodeFolders env,
      decodeRoutines = decodeRoutines env,
      timeSleep = (\<lambda>d (w, calls). (timeSleep env d w, calls @ [Sleep d]))\<rparr>"

text \<open>
  The three mutating operations as the specification lists them, for the statements
  about the requests sent: the creation of a folder is \<open>POST /routine_folders\<close>, the
  creation of a routine is \<open>POST /routines\<close> with the folder reference set, the update of
  a routine is \<open>PUT /routines/{id}\<close> with the folder reference absent; each carries the
  API key and the two JSON headers.
\<close>

definition spec_createFolderRequest :: "Client \<Rightarrow> string \<Rightarrow> Request" where
  "spec_createFolderRequest c title =
     \<lparr>Method = ''POST'', URL = ''https://api.hevyapp.com/v1/routine_folders'',
      Header = [(''api-key'', apiKey c), (''Content-Type'', ''application/json''),
                (''Accept'', ''application/json'')],
      Body = Some (FolderWrapper \<lparr>Request_Title = title\<rparr>)\<rparr>"

definition spec_createRequest :: "Client \<Rightarrow> int \<Rightarrow> CreateRoutineRequest \<Rightarrow> Request" where
  "spec_createRequest c folderID routine =
     \<lparr>Method = ''POST'', URL = ''https://api.hevyapp.com/v1/routines'',
      Header = [(''api-key'', apiKey c), (''Content-Type'', ''application/json''),
                (''Accept'', ''application/json'')],
      Body = Some (RoutineWrapper (routine\<lparr>FolderID := Some folderID\<rparr>))\<rparr>"

definition spec_updateRequest :: "Client \<Rightarrow> string \<Rightarrow> CreateRoutineRequest \<Rightarrow> Request" where
  "spec_updateRequest c existingID routine =
     \<lparr>Method = ''PUT'', URL = ''https://api.hevyapp.com/v1/routines/'' @ existingID,
      Header = [(''api-key'', apiKey c), (''Content-Type'', ''application/json''),
                (''Accept'', ''application/json'')],
      Body = Some (RoutineWrapper (routine\<lparr>FolderID := None\<rparr>))\<rparr>"

text \<open>A call of the log is accepted when the service answered the request with a
  status that the operation takes for success: 200, or 201 for a \<open>POST\<close>.\<close>

fun accepted :: "Call \<Rightarrow> bool" where
  "accepted (HttpDo req (Inr resp)) =
     (StatusCode resp = 200 \<or> (Method req = ''POST'' \<and> StatusCode resp = 201))"
| "accepted (HttpDo req (Inl err)) = False"
| "accepted (Sleep d) = False"

fun isCreateFolderCall :: "Call \<Rightarrow> bool" where
  "isCreateFolderCall (HttpDo req answer) =
     (case Body req of Some (FolderWrapper folder) \<Rightarrow> True | _ \<Rightarrow> False)"
| "isCreateFolderCall (Sleep d) = False"

text \<open>
  The retry policy in the words of the specification. The call that an attempt for a
  routine makes is the update under the existing ID, with the folder reference cleared,
  or else the creation. \<open>spec_attempts env call n w\<close> is the result and the world of
  attempt \<open>n + 1\<close> when the attempts 1 to \<open>n + 1\<close> are made one after the other from the
  world \<open>w\<close>, with nothing before the first and a sleep of \<open>10 * 2^k\<close> seconds between
  attempt \<open>k\<close> and attempt \<open>k + 1\<close>.
\<close>

definition spec_attemptCall ::
  "'w Env \<Rightarrow> Client \<Rightarrow> string option \<Rightarrow> CreateRoutineRequest \<Rightarrow> 'w \<Rightarrow> (error + Routine) \<times> 'w" where
  "spec_attemptCall env c existing routine w =
     (case existing of
        Some existingID \<Rightarrow> UpdateRoutine env c existingID (routine\<lparr>FolderID := None\<rparr>) w
      | None \<Rightarrow> CreateRoutine env c routine w)"

fun spec_attempts ::
  "'w Env \<Rightarrow> ('w \<Rightarrow> (error + Routine) \<times> 'w) \<Rightarrow> nat \<Rightarrow> 'w \<Rightarrow> (error + Routine) \<times> 'w" where
  "spec_attempts env call 0 w = call w"
| "spec_attempts env call (Suc k) w =
     call (timeSleep env (10 * 2 ^ Suc k * Second) (snd (spec_attempts env call k w)))"

text \<open>The request by which the payload with index \<open>i\<close> is synced: the update under the
  ID that the routine-title map has for its title, or else the creation in the folder
  that the week-folder map has for week \<open>i div 4 + 1\<close> (0 without an entry).\<close>

definition spec_syncRequest ::
  "Client \<Rightarrow> (int \<rightharpoonup> int) \<Rightarrow> (string \<rightharpoonup> string) \<Rightarrow> nat \<Rightarrow> CreateRoutineRequest \<Rightarrow> Request" where
  "spec_syncRequest c weekFolders routineByTitle i routine =
     (case routineByTitle (Title routine) of
        Some existingID \<Rightarrow> spec_updateRequest c existingID routine
      | None \<Rightarrow>
          spec_createRequest c
            (case weekFolders (int i div 4 + 1) of Some folderID \<Rightarrow> folderID | None \<Rightarrow> 0)
            routine)"

text \<open>What holds of a request for a routine in a sync of \<open>routines\<close>, the first of them
  with index \<open>first\<close>: it is the request by which one of the payloads is synced.\<close>

definition spec_folderReference ::
  "Client \<Rightarrow> (int \<rightharpoonup> int) \<Rightarrow> (string \<rightharpoonup> string) \<Rightarrow> nat \<Rightarrow> CreateRoutineRequest list \<Rightarrow>
   Request \<Rightarrow> bool" where
  "spec_folderReference c weekFolders routineByTitle first routines req =
     (\<exists>i < length routines.
        req = spec_syncRequest c weekFolders routineByTitle (first + i) (routines ! i))"

section \<open>Example values\<close>

text \<open>A catalog of two templates and a day without sets, used to instantiate the
  theorems below.\<close>

definition exampleSquat :: ExerciseTemplate where
  "exampleSquat =
     \<lparr>Template_ID = ''T1'', Template_Title = ''Barbell Squat'', Template_Type = ''weight_reps'',
      PrimaryMuscleGroup = ''quadriceps'', IsCustom = False\<rparr>"

definition exampleLegPress :: ExerciseTemplate where
  "exampleLegPress =
     \<lparr>Template_ID = ''T2'', Template_Title = ''Leg Press (Machine)'',
      Template_Type = ''weight_reps'', PrimaryMuscleGroup = ''quadriceps'', IsCustom = False\<rparr>"

text \<open>Go's mapping on the one string with bytes beyond ASCII that is given upper-case
  letters below: \<open>EPAULE\<close> with an acute accent on each \<open>E\<close>, in UTF-8 (the accented
  capital is the bytes C3 89, the accented small letter C3 A9). A string without
  upper-case letters, the only other kind used below, is its own lower case.\<close>

definition exampleUpper :: string where
  "exampleUpper = [CHR 0xC3, CHR 0x89] @ ''PAUL'' @ [CHR 0xC3, CHR 0x89]"

definition exampleLower :: string where
  "exampleLower = [CHR 0xC3, CHR 0xA9] @ ''paul'' @ [CHR 0xC3, CHR 0xA9]"

definition exampleUnicodeLower :: "string \<Rightarrow> string" where
  "exampleUnicodeLower s = (if s = exampleUpper then exampleLower else s)"

definition exampleShoulder :: ExerciseTemplate where
  "exampleShoulder =
     \<lparr>Template_ID = ''T3'', Template_Title = exampleUpper, Template_Type = ''weight_reps'',
      PrimaryMuscleGroup = ''shoulders'', IsCustom = True\<rparr>"

definition exampleMapper :: ExerciseMapper where
  "exampleMapper = NewExerciseMapper exampleUnicodeLower [exampleSquat, exampleLegPress]"

definition exampleOrder :: "string list" where
  "exampleOrder = [''leg press (machine)'', ''barbell squat'']"

text \<open>An environment whose world is the list of the transport's answers still to
  come, each taken by one request; when none is left the connection is refused. Its
  decoders accept a body of the form \<open>routine ID\<close> or \<open>folder N\<close> and reject any other;
  every list is decoded as a single empty page.\<close>

definition exampleEnv :: "(error + Response) list Env" where
  "exampleEnv =
     \<lparr>jsonMarshal = (\<lambda>wrapper. None),
      newRequest = (\<lambda>method url. None),
      httpDo = (\<lambda>req w. case w of [] \<Rightarrow> (Inl ''connection refused'', []) | r # rs \<Rightarrow> (r, rs)),
      unmarshalRoutine = (\<lambda>body.
        if HasPrefix body ''routine ''
        then Inr \<lparr>Routine_ID = drop 8 body, Routine_Title = []\<rparr>
        else Inl ''invalid character''),
      unmarshalFolder = (\<lambda>body.
        if HasPrefix body ''folder ''
        then Inr \<lparr>Folder_ID = Atoi (drop 7 body), Folder_Title = []\<rparr>
        else Inl ''invalid character''),
      decodeTemplates = (\<lambda>body. Inr \<lparr>Templates_PageCount = 1, ExerciseTemplates = []\<rparr>),
      decodeFolders = (\<lambda>body. Inr \<lparr>Folders_PageCount = 1, RoutineFolders = []\<rparr>),
      decodeRoutines = (\<lambda>body. Inr \<lparr>Routines_PageCount = 1, Routines = []\<rparr>),
      timeSleep = (\<lambda>d w. w)\<rparr>"

definition exampleClient :: Client where
  "exampleClient = NewClient ''key''"

definition exampleRoutine :: "string \<Rightarrow> CreateRoutineRequest" where
  "exampleRoutine title = \<lparr>Title = title, FolderID = None, Notes = None, Exercises = []\<rparr>"

definition answer :: "int \<Rightarrow> string \<Rightarrow> error + Response" where
  "answer status body = Inr \<lparr>StatusCode = status, ResponseBody = body\<rparr>"

text \<open>The four week folders as already present at the service.\<close>

definition exampleFolders :: "Folder list" where
  "exampleFolders =
     [\<lparr>Folder_ID = 11, Folder_Title = ''531 BBB Week 1''\<rparr>,
      \<lparr>Folder_ID = 12, Folder_Title = ''531 BBB Week 2''\<rparr>,
      \<lparr>Folder_ID = 13, Folder_Title = ''531 BBB Week 3''\<rparr>,
      \<lparr>Folder_ID = 14, Folder_Title = ''531 BBB Week 4''\<rparr>]"

text \<open>A sync of two payloads: the folders of weeks 1 and 2 and a routine titled \<open>A\<close>
  exist already; the service then answers the creation of the folders of weeks 3 and 4,
  the update of \<open>A\<close> and the creation of \<open>B\<close>.\<close>

definition exampleExisting :: "RoutineFull list" where
  "exampleExisting = [\<lparr>Full_ID = ''R1'', Full_Title = ''A'', Full_FolderID = Some 11\<rparr>]"

definition exampleAnswers :: "(error + Response) list" where
  "exampleAnswers =
     [answer 201 ''folder 13'', answer 200 ''folder 14'', answer 200 ''routine R1'',
      answer 201 ''routine R2'']"

text \<open>The calls that this sync makes, as the recording environment logs them.\<close>

definition exampleLog :: "Call list" where
  "exampleLog =
     [HttpDo (spec_createFolderRequest exampleClient ''531 BBB Week 3'') (answer 201 ''folder 13''),
      HttpDo (spec_createFolderRequest exampleClient ''531 BBB Week 4'') (answer 200 ''folder 14''),
      HttpDo (spec_updateRequest exampleClient ''R1'' (exampleRoutine ''A''))
        (answer 200 ''routine R1''),
      Sleep (300 * Millisecond),
      HttpDo (spec_createRequest exampleClient 11 (exampleRoutine ''B''))
        (answer 201 ''routine R2''),
      Sleep (300 * Millisecond)]"

section \<open>Properties of the converter\<close>

lemmas strconv_defs = Atoi_def ParseInt_def ParseUint_def isDigit_def digitVal_def
  maxUint64_def maxInt64_def minInt64_def

lemmas strings_defs = HasPrefix_def HasSuffix_def TrimSuffix_def ToLower_def toLowerByte_def
  isASCII_def

declare convertSets_loop.simps [simp del]

lemma convertSets_loop_replicate:
  "convertSets_loop s t a r i sets =
     sets @ replicate (nat (Set_Sets s - i)) (convertSets_body s t a r)"
proof (induction s t a r i sets rule: convertSets_loop.induct)
  case (1 s t a r i sets)
  show ?case
  proof (cases "i < Set_Sets s")
    case True
    then have "nat (Set_Sets s - i) = Suc (nat (Set_Sets s - (i + 1)))"
      by simp
    with True 1 show ?thesis
      by (subst convertSets_loop.simps) simp
  next
    case False
    then show ?thesis
      by (subst convertSets_loop.simps) simp
  qed
qed

lemma convertSets_replicate:
  "convertSets s =
     replicate (nat (Set_Sets s))
       (convertSets_body s
          (if Set_Percentage s > 0 \<and> Set_Percentage s \<le> 60 then SetTypeWarmup else SetTypeNormal)
          (HasSuffix (Set_Reps s) ''+'') (Atoi (TrimSuffix (Set_Reps s) ''+'')))"
  by (simp add: convertSets_def convertSets_loop_replicate Let_def)

lemma convertSets_member:
  "rs \<in> set (convertSets s) \<Longrightarrow>
     rs = convertSets_body s
          (if Set_Percentage s > 0 \<and> Set_Percentage s \<le> 60 then SetTypeWarmup else SetTypeNormal)
          (HasSuffix (Set_Reps s) ''+'') (Atoi (TrimSuffix (Set_Reps s) ''+''))"
  by (simp add: convertSets_replicate)

lemma Type_convertSets_body: "Type (convertSets_body s t a r) = t"
  by (simp add: convertSets_body_def Let_def)

lemma WeightKg_convertSets_body:
  "WeightKg (convertSets_body s t a r) =
     (if Set_Weight s > 0 then Some (LbsToKg (Set_Weight s)) else None)"
  by (simp add: convertSets_body_def Let_def)





text \<open>
  Claim C7. Every remote set that \<open>convertSets\<close> produces from a prescribed set has
  type \<open>warmup\<close> when the set's percentage is greater than 0 and at most 60, and type
  \<open>normal\<close> otherwise; percentage 0 (an accessory) and a percentage above 60 both give
  \<open>normal\<close>.
\<close>

theorem convertSets_kind:
  "rs \<in> set (convertSets s) \<Longrightarrow>
     Type rs =
       (if 0 < Set_Percentage s \<and> Set_Percentage s \<le> 60 then SetTypeWarmup else SetTypeNormal)"
  by (drule convertSets_member) (simp add: Type_convertSets_body)

theorem convertSets_kind_witness:
  "Type (hd (convertSets \<lparr>Set_Exercise = ''Squat'', Set_Sets = 1, Set_Reps = ''3'',
        Set_Weight = 135, Set_Percentage = 60\<rparr>)) = SetTypeWarmup \<and>
   Type (hd (convertSets \<lparr>Set_Exercise = ''Squat'', Set_Sets = 1, Set_Reps = ''5'',
        Set_Weight = 145, Set_Percentage = 65\<rparr>)) = SetTypeNormal \<and>
   Type (hd (convertSets \<lparr>Set_Exercise = ''Leg Curl'', Set_Sets = 5, Set_Reps = ''10'',
        Set_Weight = 0, Set_Percentage = 0\<rparr>)) = SetTypeNormal"
proof -
  have mem: "0 < Set_Sets s \<Longrightarrow> hd (convertSets s) \<in> set (convertSets s)" for s
    by (cases "nat (Set_Sets s)") (simp_all add: convertSets_replicate)
  show ?thesis
    using convertSets_kind [OF mem, of "\<lparr>Set_Exercise = ''Squat'', Set_Sets = 1, Set_Reps = ''3'',
        Set_Weight = 135, Set_Percentage = 60\<rparr>"]
      convertSets_kind [OF mem, of "\<lparr>Set_Exercise = ''Squat'', Set_Sets = 1, Set_Reps = ''5'',
        Set_Weight = 145, Set_Percentage = 65\<rparr>"]
      convertSets_kind [OF mem, of "\<lparr>Set_Exercise = ''Leg Curl'', Set_Sets = 5, Set_Reps = ''10'',
        Set_Weight = 0, Set_Percentage = 0\<rparr>"]
    by simp
qed

text \<open>
  Claim C8. Every remote set produced from a prescribed set carries a weight exactly when
  the prescribed weight is greater than 0, and the weight it carries is
  \<open>LbsToKg\<close> of the prescribed weight, the weight in pounds times 0.453592. A weight
  of 0 gives no weight field; 135 pounds give 61.23492 kg, which is within 0.001 of the
  figure 61.2348. (The product is the exact one; see the remark on \<open>float64\<close>.)
\<close>

theorem convertSets_weight:
  "rs \<in> set (convertSets s) \<Longrightarrow>
     WeightKg rs = (if 0 < Set_Weight s then Some (LbsToKg (Set_Weight s)) else None) \<and>
     LbsToKg (Set_Weight s) = Set_Weight s * 0.453592 \<and>
     (Set_Weight s = 135 \<longrightarrow>
        WeightKg rs = Some 61.23492 \<and> \<bar>61.23492 - 61.2348\<bar> < (0.001 :: real))"
  by (drule convertSets_member) (simp add: WeightKg_convertSets_body LbsToKg_def)

theorem convertSets_weight_witness:
  "WeightKg (hd (convertSets \<lparr>Set_Exercise = ''Squat'', Set_Sets = 1, Set_Reps = ''5'',
        Set_Weight = 135, Set_Percentage = 65\<rparr>)) = Some 61.23492 \<and>
   WeightKg (hd (convertSets \<lparr>Set_Exercise = ''Leg Curl'', Set_Sets = 5, Set_Reps = ''10'',
        Set_Weight = 0, Set_Percentage = 0\<rparr>)) = None"
proof -
  have mem: "0 < Set_Sets s \<Longrightarrow> hd (convertSets s) \<in> set (convertSets s)" for s
    by (cases "nat (Set_Sets s)") (simp_all add: convertSets_replicate)
  show ?thesis
    using convertSets_weight [OF mem, of "\<lparr>Set_Exercise = ''Squat'', Set_Sets = 1, Set_Reps = ''5'',
        Set_Weight = 135, Set_Percentage = 65\<rparr>"]
      convertSets_weight [OF mem, of "\<lparr>Set_Exercise = ''Leg Curl'', Set_Sets = 5, Set_Reps = ''10'',
        Set_Weight = 0, Set_Percentage = 0\<rparr>"]
    by simp
qed




section \<open>Properties of the exercise resolver\<close>

lemma FindTemplate_aliases_filter:
  "FindTemplate_aliases m aliases =
     (case filter (\<lambda>a. a \<in> dom m) aliases of [] \<Rightarrow> None | a # _ \<Rightarrow> m a)"
  by (induction aliases) (auto split: option.splits)

lemma FindTemplate_partial_None:
  "FindTemplate_partial m lower order = None \<longleftrightarrow>
     (\<forall>title \<in> set order. \<forall>t. m title = Some t \<longrightarrow>
        \<not> Contains title lower \<and> \<not> Contains lower title)"
  by (induction order) (auto split: option.splits)

lemma FindTemplate_partial_Some:
  "FindTemplate_partial m lower order = Some t \<Longrightarrow>
     \<exists>title. m title = Some t \<and> (Contains title lower \<or> Contains lower title)"
  by (induction order) (auto split: option.splits if_splits)

lemma FindTemplate_partial_spec:
  assumes "set order = dom m"
  shows "(FindTemplate_partial m lower order = None \<longleftrightarrow> spec_substring m lower = {}) \<and>
         (\<forall>t. FindTemplate_partial m lower order = Some t \<longrightarrow> t \<in> spec_substring m lower)"
proof -
  have "(FindTemplate_partial m lower order = None) = (spec_substring m lower = {})"
    unfolding FindTemplate_partial_None spec_substring_def using assms by blast
  moreover have "\<forall>t. FindTemplate_partial m lower order = Some t \<longrightarrow> t \<in> spec_substring m lower"
    unfolding spec_substring_def using FindTemplate_partial_Some by blast
  ultimately show ?thesis by simp
qed

text \<open>The index that \<open>NewExerciseMapper\<close> builds: its keys are the lower-case titles of
  the catalog, and the entry under a key is a template of the catalog with that
  lower-case title. A lookup of a lower-case name in it is therefore a match of the name
  against the titles that ignores case.\<close>

lemma NewExerciseMapper_loop_index:
  "NewExerciseMapper_loop u ts m k = Some t \<Longrightarrow>
     m k = Some t \<or> (t \<in> set ts \<and> ToLower u (Template_Title t) = k)"
proof (induction ts arbitrary: m)
  case Nil
  then show ?case by simp
next
  case (Cons a ts)
  from Cons.prems
  have "NewExerciseMapper_loop u ts (m(ToLower u (Template_Title a) \<mapsto> a)) k = Some t"
    by simp
  from Cons.IH [OF this]
  show ?case by (auto split: if_splits)
qed

lemma NewExerciseMapper_loop_dom:
  "dom (NewExerciseMapper_loop u ts m) = dom m \<union> (\<lambda>t. ToLower u (Template_Title t)) ` set ts"
  by (induction ts arbitrary: m) auto

lemma NewExerciseMapper_index:
  "(templates (NewExerciseMapper u ts) k = Some t \<longrightarrow>
      t \<in> set ts \<and> ToLower u (Template_Title t) = k) \<and>
   dom (templates (NewExerciseMapper u ts)) = (\<lambda>t. ToLower u (Template_Title t)) ` set ts"
  using NewExerciseMapper_loop_index [of u ts Map.empty k t]
  by (simp add: NewExerciseMapper_def NewExerciseMapper_loop_dom)

text \<open>
  Claim C5. \<open>FindTemplate\<close> resolves a name in three stages, the first match winning,
  whatever the order in which the fallback loop visits the catalog index (\<open>order\<close> lists
  the keys of the index) and whatever the Unicode tables of the Go release map a name
  beyond ASCII to (\<open>unicodeLower\<close>): (1) the entry of the index under the lower-case
  name; (2) the entry under the first alias of the lower-case name, in the order of the
  alias table, that is a key of the index; (3) some entry whose key contains the
  lower-case name or is contained in it. It returns an error exactly when none of the
  three stages matches, and the error is \<open>no template found for exercise:\<close> followed by
  the name as given. The lower-case name is \<open>strings.ToLower\<close> of the name, and the keys
  of the index are \<open>strings.ToLower\<close> of the titles of the catalog
  (\<open>NewExerciseMapper\<close>).
\<close>

theorem FindTemplate_stages:
  assumes "set order = dom (templates m)"
  shows "(case templates m (ToLower unicodeLower name) of
            Some t \<Rightarrow> FindTemplate unicodeLower m order name = Inr t
          | None \<Rightarrow>
              (case spec_firstAlias (templates m) (ToLower unicodeLower name) of
                 Some t \<Rightarrow> FindTemplate unicodeLower m order name = Inr t
               | None \<Rightarrow>
                   if spec_substring (templates m) (ToLower unicodeLower name) = {}
                   then FindTemplate unicodeLower m order name =
                          Inl (''no template found for exercise: '' @ name)
                   else \<exists>t \<in> spec_substring (templates m) (ToLower unicodeLower name).
                          FindTemplate unicodeLower m order name = Inr t)) \<and>
         ((\<exists>e. FindTemplate unicodeLower m order name = Inl e) \<longleftrightarrow>
            templates m (ToLower unicodeLower name) = None \<and>
            spec_firstAlias (templates m) (ToLower unicodeLower name) = None \<and>
            spec_substring (templates m) (ToLower unicodeLower name) = {})"
proof -
  let ?i = "templates m" and ?l = "ToLower unicodeLower name"
  have al: "(case exerciseAliases ?l of Some aliases \<Rightarrow> FindTemplate_aliases ?i aliases
             | None \<Rightarrow> None) = spec_firstAlias ?i ?l"
    by (simp add: spec_firstAlias_def FindTemplate_aliases_filter split: option.splits)
  note p = FindTemplate_partial_spec [OF assms, of ?l]
  show ?thesis
  proof (cases "?i ?l")
    case (Some t)
    then show ?thesis by (simp add: FindTemplate_def)
  next
    case None
    note n1 = this
    show ?thesis
    proof (cases "spec_firstAlias ?i ?l")
      case (Some t)
      with n1 al show ?thesis by (simp add: FindTemplate_def)
    next
      case None
      note n2 = this
      show ?thesis
      proof (cases "FindTemplate_partial ?i ?l order")
        case None
        with n1 n2 al p show ?thesis by (simp add: FindTemplate_def)
      next
        case (Some t)
        with p have "t \<in> spec_substring ?i ?l" and "spec_substring ?i ?l \<noteq> {}"
          by auto
        with n1 n2 al Some show ?thesis by (auto simp add: FindTemplate_def)
      qed
    qed
  qed
qed

theorem FindTemplate_stages_witness:
  "set exampleOrder = dom (templates exampleMapper) \<and>
   FindTemplate exampleUnicodeLower exampleMapper exampleOrder ''BARBELL Squat'' =
     Inr exampleSquat \<and>
   FindTemplate exampleUnicodeLower exampleMapper exampleOrder ''Squat'' = Inr exampleSquat \<and>
   exampleLegPress \<in> spec_substring (templates exampleMapper) ''press'' \<and>
   FindTemplate exampleUnicodeLower exampleMapper exampleOrder ''Press'' = Inr exampleLegPress \<and>
   spec_substring (templates exampleMapper) ''curl'' = {} \<and>
   FindTemplate exampleUnicodeLower exampleMapper exampleOrder ''Curl'' =
     Inl ''no template found for exercise: Curl'' \<and>
   set [exampleLower] = dom (templates (NewExerciseMapper exampleUnicodeLower [exampleShoulder])) \<and>
   FindTemplate exampleUnicodeLower (NewExerciseMapper exampleUnicodeLower [exampleShoulder])
     [exampleLower] exampleLower = Inr exampleShoulder"
proof -
  have idx: "templates exampleMapper =
      [''barbell squat'' \<mapsto> exampleSquat, ''leg press (machine)'' \<mapsto> exampleLegPress]"
    by (simp add: exampleMapper_def NewExerciseMapper_def exampleSquat_def exampleLegPress_def
        strings_defs)
  have keys: "set exampleOrder = dom (templates exampleMapper)"
    by (auto simp add: idx exampleOrder_def)
  have low: "ToLower exampleUnicodeLower ''BARBELL Squat'' = ''barbell squat''"
    "ToLower exampleUnicodeLower ''Squat'' = ''squat''"
    "ToLower exampleUnicodeLower ''Press'' = ''press''"
    "ToLower exampleUnicodeLower ''Curl'' = ''curl''"
    by (simp_all add: strings_defs)
  have fa: "spec_firstAlias (templates exampleMapper) ''squat'' = Some exampleSquat"
    by (simp add: spec_firstAlias_def exerciseAliases_def idx)
  have ev: "FindTemplate exampleUnicodeLower exampleMapper exampleOrder ''Press'' =
      Inr exampleLegPress"
    "FindTemplate exampleUnicodeLower exampleMapper exampleOrder ''Curl'' =
      Inl ''no template found for exercise: Curl''"
    by (simp_all add: FindTemplate_def low idx exampleOrder_def exerciseAliases_def HasPrefix_def)
  have "Contains ''leg press (machine)'' ''press''"
    by (simp add: HasPrefix_def)
  moreover have "templates exampleMapper ''leg press (machine)'' = Some exampleLegPress"
    by (simp add: idx)
  ultimately have mem: "exampleLegPress \<in> spec_substring (templates exampleMapper) ''press''"
    unfolding spec_substring_def by blast
  have "\<exists>e. FindTemplate exampleUnicodeLower exampleMapper exampleOrder ''Curl'' = Inl e"
    by (simp add: ev)
  with FindTemplate_stages [OF keys, of exampleUnicodeLower "''Curl''"]
  have none: "spec_substring (templates exampleMapper) ''curl'' = {}"
    by (simp add: low)
  have "FindTemplate exampleUnicodeLower exampleMapper exampleOrder ''BARBELL Squat'' =
      Inr exampleSquat"
    using FindTemplate_stages [OF keys, of exampleUnicodeLower "''BARBELL Squat''"]
    by (simp add: low idx)
  moreover have "templates exampleMapper ''squat'' = None"
    by (simp add: idx)
  then have "FindTemplate exampleUnicodeLower exampleMapper exampleOrder ''Squat'' =
      Inr exampleSquat"
    using FindTemplate_stages [OF keys, of exampleUnicodeLower "''Squat''"] by (simp add: low fa)
  moreover have lowU: "ToLower exampleUnicodeLower exampleUpper = exampleLower"
    "ToLower exampleUnicodeLower exampleLower = exampleLower"
    by (simp_all add: strings_defs exampleUnicodeLower_def exampleUpper_def exampleLower_def)
  have idxU: "templates (NewExerciseMapper exampleUnicodeLower [exampleShoulder]) =
      [exampleLower \<mapsto> exampleShoulder]"
    by (simp add: NewExerciseMapper_def exampleShoulder_def lowU)
  have keysU: "set [exampleLower] =
      dom (templates (NewExerciseMapper exampleUnicodeLower [exampleShoulder]))"
    by (simp add: idxU)
  have "FindTemplate exampleUnicodeLower (NewExerciseMapper exampleUnicodeLower [exampleShoulder])
     [exampleLower] exampleLower = Inr exampleShoulder"
    using FindTemplate_stages [OF keysU, of exampleUnicodeLower exampleLower]
    by (simp add: lowU idxU)
  ultimately show ?thesis
    using keys mem none ev keysU by simp
qed

section \<open>Properties of the conversion of a day\<close>

text \<open>
  Claim C10. For a training day without sets, \<open>ConvertDayToRoutine\<close> returns a routine
  (no error, no panic) with the title \<open>531 BBB W{week}D{day} - {mainLift}\<close> and an empty
  list of exercises, whatever the mapper; and it never invokes \<open>FindTemplate\<close>: the list
  of the names resolved is the one it started with.
\<close>

theorem ConvertDayToRoutine_no_sets:
  "Day_Sets day = [] \<Longrightarrow>
     ConvertDayToRoutine unicodeLower day mapper orders looked =
       (Ok \<lparr>Title = ''531 BBB W'' @ Itoa (Day_Week day) @ ''D'' @ Itoa (Day_DayNum day)
                     @ '' - '' @ Day_MainLift day,
            FolderID = None, Notes = None, Exercises = []\<rparr>,
        looked)"
  by (simp add: ConvertDayToRoutine_def)

theorem ConvertDayToRoutine_no_sets_witness:
  "ConvertDayToRoutine exampleUnicodeLower
     \<lparr>Day_Week = 2, Day_DayNum = 3, Day_MainLift = ''Deadlift'', Day_Sets = []\<rparr>
     (NewExerciseMapper exampleUnicodeLower []) (\<lambda>n. []) [] =
   (Ok \<lparr>Title = ''531 BBB W2D3 - Deadlift'', FolderID = None, Notes = None, Exercises = []\<rparr>,
    [])"
  using ConvertDayToRoutine_no_sets
    [of "\<lparr>Day_Week = 2, Day_DayNum = 3, Day_MainLift = ''Deadlift'', Day_Sets = []\<rparr>"
        exampleUnicodeLower "NewExerciseMapper exampleUnicodeLower []" "\<lambda>n. []" "[]"]
  by (simp add: Itoa_def)

section \<open>Properties of the remote client\<close>

lemmas client_defs = StatusOK_def StatusCreated_def answered_def sendRequest_def getRequest_def

text \<open>
  Claim C4, as amended. When a write is answered with an accepted status and the echoed
  resource cannot be decoded from the body: creating a routine (status 200 or 201) and
  updating a routine (status 200) still succeed and return a routine with only the title
  set, the one of the request; creating a folder (status 200 or 201) does not: it fails
  with the error \<open>failed to decode folder response\<close> followed by the decoder's error,
  because the caller needs the ID of the new folder.
\<close>

theorem decode_failure_on_success:
  "(answered env (sendRequest c ''POST'' (baseURL @ ''/routines'') (RoutineWrapper routine))
        w resp w' \<and>
      (StatusCode resp = 200 \<or> StatusCode resp = 201) \<and>
      unmarshalRoutine env (ResponseBody resp) = Inl derr \<longrightarrow>
      CreateRoutine env c routine w =
        (Inr \<lparr>Routine_ID = [], Routine_Title = Title routine\<rparr>, w')) \<and>
   (answered env (sendRequest c ''PUT'' (baseURL @ ''/routines/'' @ routineID)
        (RoutineWrapper routine)) w resp w' \<and>
      StatusCode resp = 200 \<and>
      unmarshalRoutine env (ResponseBody resp) = Inl derr \<longrightarrow>
      UpdateRoutine env c routineID routine w =
        (Inr \<lparr>Routine_ID = [], Routine_Title = Title routine\<rparr>, w')) \<and>
   (answered env (sendRequest c ''POST'' (baseURL @ ''/routine_folders'')
        (FolderWrapper \<lparr>Request_Title = title\<rparr>)) w resp w' \<and>
      (StatusCode resp = 200 \<or> StatusCode resp = 201) \<and>
      unmarshalFolder env (ResponseBody resp) = Inl derr \<longrightarrow>
      CreateFolder env c title w = (Inl (''failed to decode folder response: '' @ derr), w'))"
  by (auto simp add: CreateRoutine_def UpdateRoutine_def CreateFolder_def client_defs)


lemmas example_defs = exampleEnv_def exampleClient_def NewClient_def exampleRoutine_def answer_def

theorem decode_failure_on_success_witness:
  "CreateRoutine exampleEnv exampleClient (exampleRoutine ''531 BBB W1D1 - Squat'')
       [answer 201 ''<html>''] =
     (Inr \<lparr>Routine_ID = [], Routine_Title = ''531 BBB W1D1 - Squat''\<rparr>, []) \<and>
   UpdateRoutine exampleEnv exampleClient ''R7'' (exampleRoutine ''531 BBB W1D1 - Squat'')
       [answer 200 ''<html>''] =
     (Inr \<lparr>Routine_ID = [], Routine_Title = ''531 BBB W1D1 - Squat''\<rparr>, []) \<and>
   CreateFolder exampleEnv exampleClient ''531 BBB Week 1'' [answer 200 ''<html>''] =
     (Inl ''failed to decode folder response: invalid character'', [])"
  using decode_failure_on_success [of exampleEnv exampleClient
      "exampleRoutine ''531 BBB W1D1 - Squat''" "[answer 201 ''<html>'']"
      "\<lparr>StatusCode = 201, ResponseBody = ''<html>''\<rparr>" "[]" "''invalid character''"]
    decode_failure_on_success [of exampleEnv exampleClient
      "exampleRoutine ''531 BBB W1D1 - Squat''" "[answer 200 ''<html>'']"
      "\<lparr>StatusCode = 200, ResponseBody = ''<html>''\<rparr>" "[]" "''invalid character''"
      "''R7''" "''531 BBB Week 1''"]
  by (simp add: example_defs client_defs HasPrefix_def)

text \<open>
  The claim C4 as it was stated, for every write, fails on the creation of a folder: the
  answer has status 201 and a body that is no folder, and \<open>CreateFolder\<close> returns an
  error, not a folder with only its title.
\<close>

theorem CreateFolder_decode_failure:
  "answered exampleEnv
     (sendRequest exampleClient ''POST'' (baseURL @ ''/routine_folders'')
        (FolderWrapper \<lparr>Request_Title = ''531 BBB Week 1''\<rparr>))
     [answer 201 ''<html>''] \<lparr>StatusCode = 201, ResponseBody = ''<html>''\<rparr> [] \<and>
   unmarshalFolder exampleEnv ''<html>'' = Inl ''invalid character'' \<and>
   CreateFolder exampleEnv exampleClient ''531 BBB Week 1'' [answer 201 ''<html>''] =
     (Inl ''failed to decode folder response: invalid character'', [])"
  by (simp add: CreateFolder_def example_defs client_defs HasPrefix_def)

text \<open>
  Claim C9, as amended. A response whose status is not accepted makes the operation fail
  with the error \<open>API error (status N): body\<close>, which carries the status code and the
  body. The accepted status is 200 for every operation, and 201 as well for the creation
  of a routine and for the creation of a folder, and for no other operation: the update
  of a routine fails on any status but 200, and each of the three reads fails on any page
  answered with a status other than 200 and goes on to decode a page answered with
  200. (Every status outside 200..299 is among the rejected ones.)
\<close>

theorem status_codes:
  "(answered env (sendRequest c ''POST'' (baseURL @ ''/routines'') (RoutineWrapper routine))
        w resp w' \<longrightarrow>
      (CreateRoutine env c routine w = (Inl (apiError resp), w') \<longleftrightarrow>
         StatusCode resp \<noteq> 200 \<and> StatusCode resp \<noteq> 201)) \<and>
   (answered env (sendRequest c ''POST'' (baseURL @ ''/routine_folders'')
        (FolderWrapper \<lparr>Request_Title = title\<rparr>)) w resp w' \<longrightarrow>
      (CreateFolder env c title w = (Inl (apiError resp), w') \<longleftrightarrow>
         StatusCode resp \<noteq> 200 \<and> StatusCode resp \<noteq> 201)) \<and>
   (answered env (sendRequest c ''PUT'' (baseURL @ ''/routines/'' @ routineID)
        (RoutineWrapper routine)) w resp w' \<longrightarrow>
      (UpdateRoutine env c routineID routine w = (Inl (apiError resp), w') \<longleftrightarrow>
         StatusCode resp \<noteq> 200)) \<and>
   (answered env (getRequest c (baseURL @ ''/exercise_templates?page='' @ Itoa page
        @ ''&pageSize=100'')) w resp w' \<longrightarrow>
      GetExerciseTemplates_loop env c page allTemplates w =
        (if StatusCode resp \<noteq> 200 then Some (Inl (apiError resp), w')
         else case decodeTemplates env (ResponseBody resp) of
                Inl err \<Rightarrow> Some (Inl (''failed to decode response: '' @ err), w')
              | Inr result \<Rightarrow>
                  if page \<ge> Templates_PageCount result
                  then Some (Inr (allTemplates @ ExerciseTemplates result), w')
                  else GetExerciseTemplates_loop env c (page + 1)
                         (allTemplates @ ExerciseTemplates result) w')) \<and>
   (answered env (getRequest c (baseURL @ ''/routine_folders?page='' @ Itoa page
        @ ''&pageSize=10'')) w resp w' \<longrightarrow>
      GetFolders_loop env c page allFolders w =
        (if StatusCode resp \<noteq> 200 then Some (Inl (apiError resp), w')
         else case decodeFolders env (ResponseBody resp) of
                Inl err \<Rightarrow> Some (Inl (''failed to decode response: '' @ err), w')
              | Inr result \<Rightarrow>
                  if page \<ge> Folders_PageCount result
                  then Some (Inr (allFolders @ RoutineFolders result), w')
                  else GetFolders_loop env c (page + 1)
                         (allFolders @ RoutineFolders result) w')) \<and>
   (answered env (getRequest c (baseURL @ ''/routines?page='' @ Itoa page
        @ ''&pageSize=10'')) w resp w' \<longrightarrow>
      GetRoutines_loop env c page allRoutines w =
        (if StatusCode resp \<noteq> 200 then Some (Inl (apiError resp), w')
         else case decodeRoutines env (ResponseBody resp) of
                Inl err \<Rightarrow> Some (Inl (''failed to decode response: '' @ err), w')
              | Inr result \<Rightarrow>
                  if page \<ge> Routines_PageCount result
                  then Some (Inr (allRoutines @ Routines result), w')
                  else GetRoutines_loop env c (page + 1)
                         (allRoutines @ Routines result) w')) \<and>
   apiError resp = ''API error (status '' @ Itoa (StatusCode resp) @ ''): '' @ ResponseBody resp"
proof -
  have cr: "answered env (sendRequest c ''POST'' (baseURL @ ''/routines'') (RoutineWrapper routine))
        w resp w' \<longrightarrow>
      (CreateRoutine env c routine w = (Inl (apiError resp), w') \<longleftrightarrow>
         StatusCode resp \<noteq> 200 \<and> StatusCode resp \<noteq> 201)"
    by (auto simp add: CreateRoutine_def client_defs split: sum.splits)
  have cf: "answered env (sendRequest c ''POST'' (baseURL @ ''/routine_folders'')
        (FolderWrapper \<lparr>Request_Title = title\<rparr>)) w resp w' \<longrightarrow>
      (CreateFolder env c title w = (Inl (apiError resp), w') \<longleftrightarrow>
         StatusCode resp \<noteq> 200 \<and> StatusCode resp \<noteq> 201)"
    by (auto simp add: CreateFolder_def client_defs apiError_def split: sum.splits)
  have ur: "answered env (sendRequest c ''PUT'' (baseURL @ ''/routines/'' @ routineID)
        (RoutineWrapper routine)) w resp w' \<longrightarrow>
      (UpdateRoutine env c routineID routine w = (Inl (apiError resp), w') \<longleftrightarrow>
         StatusCode resp \<noteq> 200)"
    by (auto simp add: UpdateRoutine_def client_defs split: sum.splits)
  have gt: "answered env (getRequest c (baseURL @ ''/exercise_templates?page='' @ Itoa page
        @ ''&pageSize=100'')) w resp w' \<longrightarrow>
      GetExerciseTemplates_loop env c page allTemplates w =
        (if StatusCode resp \<noteq> 200 then Some (Inl (apiError resp), w')
         else case decodeTemplates env (ResponseBody resp) of
                Inl err \<Rightarrow> Some (Inl (''failed to decode response: '' @ err), w')
              | Inr result \<Rightarrow>
                  if page \<ge> Templates_PageCount result
                  then Some (Inr (allTemplates @ ExerciseTemplates result), w')
                  else GetExerciseTemplates_loop env c (page + 1)
                         (allTemplates @ ExerciseTemplates result) w')"
    by (subst GetExerciseTemplates_loop.simps) (simp add: client_defs split: sum.splits)
  have gf: "answered env (getRequest c (baseURL @ ''/routine_folders?page='' @ Itoa page
        @ ''&pageSize=10'')) w resp w' \<longrightarrow>
      GetFolders_loop env c page allFolders w =
        (if StatusCode resp \<noteq> 200 then Some (Inl (apiError resp), w')
         else case decodeFolders env (ResponseBody resp) of
                Inl err \<Rightarrow> Some (Inl (''failed to decode response: '' @ err), w')
              | Inr result \<Rightarrow>
                  if page \<ge> Folders_PageCount result
                  then Some (Inr (allFolders @ RoutineFolders result), w')
                  else GetFolders_loop env c (page + 1)
                         (allFolders @ RoutineFolders result) w')"
    by (subst GetFolders_loop.simps) (simp add: client_defs split: sum.splits)
  have gr: "answered env (getRequest c (baseURL @ ''/routines?page='' @ Itoa page
        @ ''&pageSize=10'')) w resp w' \<longrightarrow>
      GetRoutines_loop env c page allRoutines w =
        (if StatusCode resp \<noteq> 200 then Some (Inl (apiError resp), w')
         else case decodeRoutines env (ResponseBody resp) of
                Inl err \<Rightarrow> Some (Inl (''failed to decode response: '' @ err), w')
              | Inr result \<Rightarrow>
                  if page \<ge> Routines_PageCount result
                  then Some (Inr (allRoutines @ Routines result), w')
                  else GetRoutines_loop env c (page + 1)
                         (allRoutines @ Routines result) w')"
    by (subst GetRoutines_loop.simps) (simp add: client_defs split: sum.splits)
  have ae: "apiError resp =
      ''API error (status '' @ Itoa (StatusCode resp) @ ''): '' @ ResponseBody resp"
    by (simp add: apiError_def)
  from cr cf ur gt gf gr ae show ?thesis
    by (intro conjI)
qed


theorem status_codes_witness:
  "CreateRoutine exampleEnv exampleClient (exampleRoutine ''531 BBB W1D1 - Squat'')
       [answer 500 ''oops''] = (Inl ''API error (status 500): oops'', []) \<and>
   CreateFolder exampleEnv exampleClient ''531 BBB Week 1'' [answer 404 ''no''] =
     (Inl ''API error (status 404): no'', []) \<and>
   UpdateRoutine exampleEnv exampleClient ''R7'' (exampleRoutine ''531 BBB W1D1 - Squat'')
       [answer 201 ''routine R7''] = (Inl ''API error (status 201): routine R7'', []) \<and>
   GetExerciseTemplates_loop exampleEnv exampleClient 1 [] [answer 201 ''x''] =
     Some (Inl ''API error (status 201): x'', []) \<and>
   GetFolders_loop exampleEnv exampleClient 1 [] [answer 503 ''busy''] =
     Some (Inl ''API error (status 503): busy'', []) \<and>
   GetRoutines_loop exampleEnv exampleClient 1 [] [answer 200 ''{}''] = Some (Inr [], [])"
proof -
  have i: "Itoa 1 = ''1''" "Itoa 500 = ''500''" "Itoa 404 = ''404''" "Itoa 201 = ''201''"
    "Itoa 503 = ''503''"
    by (simp_all add: Itoa_def)
  show ?thesis
    using status_codes [of exampleEnv exampleClient "exampleRoutine ''531 BBB W1D1 - Squat''"
        "[answer 500 ''oops'']" "\<lparr>StatusCode = 500, ResponseBody = ''oops''\<rparr>" "[]"]
      status_codes [of exampleEnv exampleClient _ "[answer 404 ''no'']"
        "\<lparr>StatusCode = 404, ResponseBody = ''no''\<rparr>" "[]" "''531 BBB Week 1''"]
      status_codes [of exampleEnv exampleClient "exampleRoutine ''531 BBB W1D1 - Squat''"
        "[answer 201 ''routine R7'']" "\<lparr>StatusCode = 201, ResponseBody = ''routine R7''\<rparr>"
        "[]" _ "''R7''"]
      status_codes [of exampleEnv exampleClient _ "[answer 201 ''x'']"
        "\<lparr>StatusCode = 201, ResponseBody = ''x''\<rparr>" "[]" _ _ 1 "[]"]
      status_codes [of exampleEnv exampleClient _ "[answer 503 ''busy'']"
        "\<lparr>StatusCode = 503, ResponseBody = ''busy''\<rparr>" "[]" _ _ 1 _ "[]"]
      status_codes [of exampleEnv exampleClient _ "[answer 200 ''{}'']"
        "\<lparr>StatusCode = 200, ResponseBody = ''{}''\<rparr>" "[]" _ _ 1 _ _ "[]"]
    by (simp add: example_defs client_defs apiError_def i)
qed

text \<open>
  The claim C9 as it was stated, with 201 accepted for the creation of a routine and for
  no other operation, fails on the creation of a folder: answered with status 201,
  \<open>CreateFolder\<close> succeeds.
\<close>

theorem CreateFolder_accepts_201:
  "answered exampleEnv
     (sendRequest exampleClient ''POST'' (baseURL @ ''/routine_folders'')
        (FolderWrapper \<lparr>Request_Title = ''531 BBB Week 1''\<rparr>))
     [answer 201 ''folder 7''] \<lparr>StatusCode = 201, ResponseBody = ''folder 7''\<rparr> [] \<and>
   CreateFolder exampleEnv exampleClient ''531 BBB Week 1'' [answer 201 ''folder 7''] =
     (Inr \<lparr>Folder_ID = 7, Folder_Title = []\<rparr>, [])"
  by (simp add: CreateFolder_def example_defs client_defs HasPrefix_def strconv_defs)

section \<open>Properties of the sync orchestrator\<close>

text \<open>What a client call does in a recording environment: it returns what it returns
  without the log, and it logs the one request it sends, if it gets as far as sending
  it; the request is accepted exactly when the call succeeds.\<close>

declare uploadToHevy_weeks.simps [simp del] uploadToHevy_attempts.simps [simp del]

lemma recording_simps [simp]:
  "jsonMarshal (recording env) = jsonMarshal env"
  "newRequest (recording env) = newRequest env"
  "unmarshalRoutine (recording env) = unmarshalRoutine env"
  "unmarshalFolder (recording env) = unmarshalFolder env"
  "httpDo (recording env) req (w, calls) =
     (fst (httpDo env req w), (snd (httpDo env req w), calls @ [HttpDo req (fst (httpDo env req w))]))"
  "timeSleep (recording env) d (w, calls) = (timeSleep env d w, calls @ [Sleep d])"
  by (simp_all add: recording_def split: prod.splits)

lemma spec_requests:
  "sendRequest c ''POST'' (baseURL @ ''/routine_folders'') (FolderWrapper \<lparr>Request_Title = title\<rparr>) =
     spec_createFolderRequest c title"
  "sendRequest c ''POST'' (baseURL @ ''/routines'') (RoutineWrapper (routine\<lparr>FolderID := Some folderID\<rparr>)) =
     spec_createRequest c folderID routine"
  "sendRequest c ''PUT'' (baseURL @ ''/routines/'' @ existingID) (RoutineWrapper (routine\<lparr>FolderID := None\<rparr>)) =
     spec_updateRequest c existingID routine"
  by (simp_all add: sendRequest_def baseURL_def spec_createFolderRequest_def spec_createRequest_def
      spec_updateRequest_def)

lemma Method_spec [simp]:
  "Method (spec_createFolderRequest c title) = ''POST''"
  "Method (spec_createRequest c folderID routine) = ''POST''"
  "Method (spec_updateRequest c existingID routine) = ''PUT''"
  by (simp_all add: spec_createFolderRequest_def spec_createRequest_def spec_updateRequest_def)

lemma CreateFolder_recording:
  assumes "CreateFolder (recording env) c title (w, calls) = (r, (w1, calls1))"
  shows "CreateFolder env c title w = (r, w1) \<and>
         (\<exists>evs. calls1 = calls @ evs \<and>
            (\<forall>e \<in> set evs. \<exists>reply. e = HttpDo (spec_createFolderRequest c title) reply) \<and>
            (\<forall>folder. r = Inr folder \<longrightarrow>
               (\<exists>resp. evs = [HttpDo (spec_createFolderRequest c title) (Inr resp)] \<and>
                  (StatusCode resp = 200 \<or> StatusCode resp = 201) \<and>
                  unmarshalFolder env (ResponseBody resp) = Inr folder)))"
proof -
  let ?req = "spec_createFolderRequest c title"
  obtain reply w2 where h: "httpDo env ?req w = (reply, w2)" by (metis surj_pair)
  show ?thesis
    using assms h unfolding CreateFolder_def Let_def spec_requests
    by (cases "jsonMarshal env (FolderWrapper \<lparr>Request_Title = title\<rparr>)";
        cases "newRequest env ''POST'' (baseURL @ ''/routine_folders'')"; cases reply)
       (auto simp add: StatusOK_def StatusCreated_def split: sum.splits if_splits)
qed

lemma CreateRoutine_recording:
  assumes "CreateRoutine (recording env) c routine (w, calls) = (r, (w1, calls1))"
    and "FolderID routine = Some folderID"
  shows "CreateRoutine env c routine w = (r, w1) \<and>
         (\<exists>evs. calls1 = calls @ evs \<and>
            (\<forall>e \<in> set evs. \<exists>reply. e = HttpDo (spec_createRequest c folderID routine) reply) \<and>
            (if errorOf r = None
             then \<exists>resp. filter accepted evs = [HttpDo (spec_createRequest c folderID routine) (Inr resp)]
             else filter accepted evs = []))"
proof -
  let ?req = "spec_createRequest c folderID routine"
  from assms(2) have same: "routine\<lparr>FolderID := Some folderID\<rparr> = routine" by simp
  have req: "sendRequest c ''POST'' (baseURL @ ''/routines'') (RoutineWrapper routine) = ?req"
    using spec_requests(2) [where c = c and routine = routine and folderID = folderID]
    by (simp only: same)
  obtain reply w2 where h: "httpDo env ?req w = (reply, w2)" by (metis surj_pair)
  show ?thesis
    using assms(1) h unfolding CreateRoutine_def Let_def req
    by (cases "jsonMarshal env (RoutineWrapper routine)";
        cases "newRequest env ''POST'' (baseURL @ ''/routines'')"; cases reply)
       (auto simp add: StatusOK_def StatusCreated_def errorOf_def split: sum.splits if_splits)
qed

lemma UpdateRoutine_recording:
  assumes "UpdateRoutine (recording env) c existingID (routine\<lparr>FolderID := None\<rparr>) (w, calls) =
             (r, (w1, calls1))"
  shows "UpdateRoutine env c existingID (routine\<lparr>FolderID := None\<rparr>) w = (r, w1) \<and>
         (\<exists>evs. calls1 = calls @ evs \<and>
            (\<forall>e \<in> set evs. \<exists>reply. e = HttpDo (spec_updateRequest c existingID routine) reply) \<and>
            (if errorOf r = None
             then \<exists>resp. filter accepted evs = [HttpDo (spec_updateRequest c existingID routine) (Inr resp)]
             else filter accepted evs = []))"
proof -
  let ?req = "spec_updateRequest c existingID routine"
  obtain reply w2 where h: "httpDo env ?req w = (reply, w2)" by (metis surj_pair)
  show ?thesis
    using assms h unfolding UpdateRoutine_def Let_def spec_requests
    by (cases "jsonMarshal env (RoutineWrapper (routine\<lparr>FolderID := None\<rparr>))";
        cases "newRequest env ''PUT'' (baseURL @ ''/routines/'' @ existingID)"; cases reply)
       (auto simp add: StatusOK_def StatusCreated_def errorOf_def split: sum.splits if_splits)
qed

lemma HasPrefix_iff: "HasPrefix s pre \<longleftrightarrow> (\<exists>q. s = pre @ q)"
proof
  assume "HasPrefix s pre"
  then have "s = pre @ drop (length pre) s"
    by (metis HasPrefix_def append_take_drop_id)
  then show "\<exists>q. s = pre @ q" ..
next
  assume "\<exists>q. s = pre @ q"
  then show "HasPrefix s pre" by (auto simp: HasPrefix_def)
qed

lemma Contains_iff: "Contains s substr \<longleftrightarrow> (\<exists>p q. s = p @ substr @ q)"
proof (induction s)
  case Nil
  then show ?case by auto
next
  case (Cons c s)
  show ?case
  proof
    assume "Contains (c # s) substr"
    then consider "HasPrefix (c # s) substr" | "Contains s substr" by auto
    then show "\<exists>p q. c # s = p @ substr @ q"
    proof cases
      case 1
      then obtain q where "c # s = substr @ q" by (auto simp: HasPrefix_iff)
      then have "c # s = [] @ substr @ q" by simp
      then show ?thesis by blast
    next
      case 2
      with Cons obtain p q where "s = p @ substr @ q" by auto
      then have "c # s = (c # p) @ substr @ q" by simp
      then show ?thesis by blast
    qed
  next
    assume "\<exists>p q. c # s = p @ substr @ q"
    then obtain p q where e: "c # s = p @ substr @ q" by auto
    show "Contains (c # s) substr"
    proof (cases p)
      case Nil
      with e have "HasPrefix (c # s) substr" by (auto simp: HasPrefix_iff)
      then show ?thesis by simp
    next
      case (Cons a p')
      with e have "s = p' @ substr @ q" by simp
      with Cons.IH have "Contains s substr" by auto
      then show ?thesis by simp
    qed
  qed
qed

lemma isRateLimitError_iff:
  "isRateLimitError e \<longleftrightarrow>
     (\<exists>text. e = Some text \<and>
        ((\<exists>p q. text = p @ ''429'' @ q) \<or> (\<exists>p q. text = p @ ''rate limit'' @ q)))"
  by (cases e) (simp_all add: isRateLimitError_def Contains_iff)

lemma isRateLimitError_None [simp]: "\<not> isRateLimitError None"
  by (simp add: isRateLimitError_def)

text \<open>One round of the retry loop is one attempt of the policy.\<close>

lemma uploadToHevy_attempt_first:
  "uploadToHevy_attempt env c existing routine 0 w =
     ((errorOf (fst (spec_attempts env (spec_attemptCall env c existing routine) 0 w)),
       existing \<noteq> None),
      snd (spec_attempts env (spec_attemptCall env c existing routine) 0 w))"
  by (cases existing)
     (simp_all add: uploadToHevy_attempt_def spec_attemptCall_def Let_def split: prod.splits)

lemma uploadToHevy_attempt_next:
  "uploadToHevy_attempt env c existing routine (int (Suc k))
       (snd (spec_attempts env (spec_attemptCall env c existing routine) k w)) =
     ((errorOf (fst (spec_attempts env (spec_attemptCall env c existing routine) (Suc k) w)),
       existing \<noteq> None),
      snd (spec_attempts env (spec_attemptCall env c existing routine) (Suc k) w))"
proof -
  have "nat (1 + int k) = Suc k" by simp
  then show ?thesis
    by (cases existing)
       (simp_all add: uploadToHevy_attempt_def spec_attemptCall_def Let_def split: prod.splits)
qed

lemma uploadToHevy_attempts_next:
  fixes env :: "'w Env" and c existing routine
  defines "spec \<equiv> spec_attempts env (spec_attemptCall env c existing routine)"
  assumes "uploadToHevy_attempts env c existing routine (int (Suc a))
             (errorOf (fst (spec a w))) (existing \<noteq> None) (snd (spec a w)) =
           ((err, isUpdate), w')"
    and "a < 5"
    and "\<forall>k \<le> a. isRateLimitError (errorOf (fst (spec k w)))"
  shows "\<exists>n < 5. (\<forall>k < n. isRateLimitError (errorOf (fst (spec k w)))) \<and>
           (n < 4 \<longrightarrow> \<not> isRateLimitError (errorOf (fst (spec n w)))) \<and>
           err = errorOf (fst (spec n w)) \<and> isUpdate = (existing \<noteq> None) \<and>
           w' = snd (spec n w)"
  using assms(2-)
proof (induction "4 - a" arbitrary: a)
  case 0
  then have a: "a = 4" by simp
  with 0(2) have "((err, isUpdate), w') =
      ((errorOf (fst (spec 4 w)), existing \<noteq> None), snd (spec 4 w))"
    by (simp add: uploadToHevy_attempts.simps)
  with 0(4) a show ?case
    by (intro exI [of _ 4]) auto
next
  case (Suc m)
  then have lt: "a < 4" by simp
  let ?e = "errorOf (fst (spec (Suc a) w))"
  have one: "uploadToHevy_attempt env c existing routine (int (Suc a)) (snd (spec a w)) =
      ((?e, existing \<noteq> None), snd (spec (Suc a) w))"
    unfolding spec_def by (rule uploadToHevy_attempt_next)
  show ?case
  proof (cases "isRateLimitError ?e")
    case False
    with Suc.prems(1) one lt have "((err, isUpdate), w') =
        ((?e, existing \<noteq> None), snd (spec (Suc a) w))"
      by (subst (asm) uploadToHevy_attempts.simps) auto
    with False Suc.prems(3) lt show ?thesis
      by (intro exI [of _ "Suc a"]) (auto simp add: less_Suc_eq_le)
  next
    case True
    then have "?e \<noteq> None" by (metis isRateLimitError_None)
    with True Suc.prems(1) one lt have rec:
      "uploadToHevy_attempts env c existing routine (int (Suc (Suc a))) ?e (existing \<noteq> None)
          (snd (spec (Suc a) w)) = ((err, isUpdate), w')"
      by (subst (asm) uploadToHevy_attempts.simps) (auto simp add: add.commute)
    from Suc.hyps(2) have m: "m = 4 - Suc a" by simp
    from True Suc.prems(3) have all: "\<forall>k \<le> Suc a. isRateLimitError (errorOf (fst (spec k w)))"
      by (auto simp add: le_Suc_eq)
    from lt have "Suc a < 5" by simp
    from Suc.hyps(1) [OF m rec this all] show ?thesis .
  qed
qed

lemma uploadToHevy_attempts_spec:
  fixes env :: "'w Env" and c existing routine
  defines "spec \<equiv> spec_attempts env (spec_attemptCall env c existing routine)"
  assumes "uploadToHevy_attempts env c existing routine 0 None False w = ((err, isUpdate), w')"
  shows "\<exists>n < 5. (\<forall>k < n. isRateLimitError (errorOf (fst (spec k w)))) \<and>
           (n < 4 \<longrightarrow> \<not> isRateLimitError (errorOf (fst (spec n w)))) \<and>
           err = errorOf (fst (spec n w)) \<and> isUpdate = (existing \<noteq> None) \<and>
           w' = snd (spec n w)"
proof -
  let ?e = "errorOf (fst (spec 0 w))"
  have one: "uploadToHevy_attempt env c existing routine 0 w =
      ((?e, existing \<noteq> None), snd (spec 0 w))"
    unfolding spec_def by (rule uploadToHevy_attempt_first)
  show ?thesis
  proof (cases "isRateLimitError ?e")
    case False
    with assms(2) one have "((err, isUpdate), w') = ((?e, existing \<noteq> None), snd (spec 0 w))"
      by (subst (asm) uploadToHevy_attempts.simps) auto
    with False show ?thesis
      by (intro exI [of _ 0]) auto
  next
    case True
    then have "?e \<noteq> None" by (metis isRateLimitError_None)
    with True assms(2) one have rec:
      "uploadToHevy_attempts env c existing routine (int (Suc 0)) ?e (existing \<noteq> None)
          (snd (spec 0 w)) = ((err, isUpdate), w')"
      by (subst (asm) uploadToHevy_attempts.simps) auto
    from True have all: "\<forall>k \<le> 0. isRateLimitError (errorOf (fst (spec k w)))" by simp
    from uploadToHevy_attempts_next [OF rec [unfolded spec_def] _ all [unfolded spec_def]]
    show ?thesis unfolding spec_def by simp
  qed
qed

lemma spec_requests_folder [simp]:
  "spec_updateRequest c existingID (routine\<lparr>FolderID := x\<rparr>) = spec_updateRequest c existingID routine"
  "spec_createRequest c folderID (routine\<lparr>FolderID := x\<rparr>) = spec_createRequest c folderID routine"
  by (simp_all add: spec_updateRequest_def spec_createRequest_def)

lemma uploadToHevy_attempt_recording:
  fixes env :: "'w Env" and c existing routine folderID
  defines "req \<equiv> (case existing of
                     Some existingID \<Rightarrow> spec_updateRequest c existingID routine
                   | None \<Rightarrow> spec_createRequest c folderID routine)"
  assumes run: "uploadToHevy_attempt (recording env) c existing routine attempt (w, calls) =
                  ((e, u), (w1, calls1))"
    and folder: "FolderID routine = Some folderID"
  shows "uploadToHevy_attempt env c existing routine attempt w = ((e, u), w1) \<and>
         u = (existing \<noteq> None) \<and>
         (\<exists>evs. calls1 = calls @ evs \<and>
            (\<forall>x \<in> set evs. (\<exists>d. x = Sleep d) \<or> (\<exists>reply. x = HttpDo req reply)) \<and>
            (if e = None then \<exists>resp. filter accepted evs = [HttpDo req (Inr resp)]
             else filter accepted evs = []))"
proof -
  let ?d = "10 * 2 ^ nat attempt * Second"
  let ?w0 = "if attempt > 0 then timeSleep env ?d w else w"
  let ?sl = "if attempt > 0 then [Sleep ?d] else []"
  have sleep: "(if attempt > 0 then timeSleep (recording env) ?d (w, calls) else (w, calls)) =
      (?w0, calls @ ?sl)"
    by simp
  have sl: "filter accepted ?sl = []" "\<forall>x \<in> set ?sl. \<exists>d. x = Sleep d"
    by simp_all
  show ?thesis
  proof (cases existing)
    case None
    obtain r w2 c2 where
      cr: "CreateRoutine (recording env) c routine (?w0, calls @ ?sl) = (r, (w2, c2))"
      by (metis surj_pair)
    from run None cr have res: "e = errorOf r" "u = False" "w1 = w2" "calls1 = c2"
      unfolding uploadToHevy_attempt_def Let_def sleep by simp_all
    from CreateRoutine_recording [OF cr folder] obtain evs where
      plain: "CreateRoutine env c routine ?w0 = (r, w2)"
      and evs: "c2 = (calls @ ?sl) @ evs"
        "\<forall>x \<in> set evs. \<exists>reply. x = HttpDo (spec_createRequest c folderID routine) reply"
        "if errorOf r = None
         then \<exists>resp. filter accepted evs = [HttpDo (spec_createRequest c folderID routine) (Inr resp)]
         else filter accepted evs = []"
      by blast
    have r: "req = spec_createRequest c folderID routine"
      by (simp add: req_def None)
    have "uploadToHevy_attempt env c existing routine attempt w = ((e, u), w1)"
      using plain None res by (cases "0 < attempt") (simp_all add: uploadToHevy_attempt_def Let_def)
    moreover have "u = (existing \<noteq> None)"
      using None res by simp
    moreover have "calls1 = calls @ (?sl @ evs)"
      using evs(1) res(4) by simp
    moreover have "\<forall>x \<in> set (?sl @ evs). (\<exists>d. x = Sleep d) \<or> (\<exists>reply. x = HttpDo req reply)"
      using evs(2) sl(2) r by auto
    moreover have "if e = None then \<exists>resp. filter accepted (?sl @ evs) = [HttpDo req (Inr resp)]
             else filter accepted (?sl @ evs) = []"
      using evs(3) res(1) r by (simp only: filter_append sl(1) append_Nil)
    ultimately show ?thesis by blast
  next
    case (Some existingID)
    obtain r w2 c2 where
      ur: "UpdateRoutine (recording env) c existingID (routine\<lparr>FolderID := None\<rparr>)
             (?w0, calls @ ?sl) = (r, (w2, c2))"
      by (metis surj_pair)
    from run Some ur have res: "e = errorOf r" "u = True" "w1 = w2" "calls1 = c2"
      unfolding uploadToHevy_attempt_def Let_def sleep by simp_all
    from UpdateRoutine_recording [OF ur] obtain evs where
      plain: "UpdateRoutine env c existingID (routine\<lparr>FolderID := None\<rparr>) ?w0 = (r, w2)"
      and evs: "c2 = (calls @ ?sl) @ evs"
        "\<forall>x \<in> set evs. \<exists>reply. x = HttpDo (spec_updateRequest c existingID routine) reply"
        "if errorOf r = None
         then \<exists>resp. filter accepted evs = [HttpDo (spec_updateRequest c existingID routine) (Inr resp)]
         else filter accepted evs = []"
      by blast
    have r: "req = spec_updateRequest c existingID routine"
      by (simp add: req_def Some)
    have "uploadToHevy_attempt env c existing routine attempt w = ((e, u), w1)"
      using plain Some res by (cases "0 < attempt") (simp_all add: uploadToHevy_attempt_def Let_def)
    moreover have "u = (existing \<noteq> None)"
      using Some res by simp
    moreover have "calls1 = calls @ (?sl @ evs)"
      using evs(1) res(4) by simp
    moreover have "\<forall>x \<in> set (?sl @ evs). (\<exists>d. x = Sleep d) \<or> (\<exists>reply. x = HttpDo req reply)"
      using evs(2) sl(2) r by auto
    moreover have "if e = None then \<exists>resp. filter accepted (?sl @ evs) = [HttpDo req (Inr resp)]
             else filter accepted (?sl @ evs) = []"
      using evs(3) res(1) r by (simp only: filter_append sl(1) append_Nil)
    ultimately show ?thesis by blast
  qed
qed

lemma uploadToHevy_attempts_recording:
  fixes env :: "'w Env" and c existing routine folderID
  defines "req \<equiv> (case existing of
                     Some existingID \<Rightarrow> spec_updateRequest c existingID routine
                   | None \<Rightarrow> spec_createRequest c folderID routine)"
  assumes run: "uploadToHevy_attempts (recording env) c existing routine (int a) err0 upd0
                  (w, calls) = ((err, isUpdate), (w', calls'))"
    and a: "a < 5"
    and folder: "FolderID routine = Some folderID"
  shows "uploadToHevy_attempts env c existing routine (int a) err0 upd0 w = ((err, isUpdate), w') \<and>
         isUpdate = (existing \<noteq> None) \<and>
         (\<exists>evs. calls' = calls @ evs \<and>
            (\<forall>x \<in> set evs. (\<exists>d. x = Sleep d) \<or> (\<exists>reply. x = HttpDo req reply)) \<and>
            (if err = None then \<exists>resp. filter accepted evs = [HttpDo req (Inr resp)]
             else filter accepted evs = []))"
  using run a
proof (induction "5 - a" arbitrary: a err0 upd0 w calls)
  case 0
  then show ?case by simp
next
  case (Suc n)
  obtain e u w1 c1 where
    one: "uploadToHevy_attempt (recording env) c existing routine (int a) (w, calls) =
            ((e, u), (w1, c1))"
    by (metis surj_pair)
  from uploadToHevy_attempt_recording [OF one folder] obtain evs where
    plain: "uploadToHevy_attempt env c existing routine (int a) w = ((e, u), w1)"
    and u: "u = (existing \<noteq> None)"
    and evs: "c1 = calls @ evs"
      "\<forall>x \<in> set evs. (\<exists>d. x = Sleep d) \<or> (\<exists>reply. x = HttpDo req reply)"
      "if e = None then \<exists>resp. filter accepted evs = [HttpDo req (Inr resp)]
       else filter accepted evs = []"
    unfolding req_def by blast
  have lt: "int a < 5" using Suc.prems(2) by simp
  show ?case
  proof (cases "e = None \<or> \<not> isRateLimitError e")
    case True
    with Suc.prems(1) one lt have "((err, isUpdate), (w', calls')) = ((e, u), (w1, c1))"
      by (subst (asm) uploadToHevy_attempts.simps) auto
    moreover from True plain lt
    have "uploadToHevy_attempts env c existing routine (int a) err0 upd0 w = ((e, u), w1)"
      by (subst uploadToHevy_attempts.simps) auto
    ultimately show ?thesis
      using u evs by auto
  next
    case False
    then have ne: "e \<noteq> None" by simp
    with evs(3) have nil: "filter accepted evs = []" by simp
    from False Suc.prems(1) one lt have rec:
      "uploadToHevy_attempts (recording env) c existing routine (int a + 1) e u (w1, c1) =
         ((err, isUpdate), (w', calls'))"
      by (subst (asm) uploadToHevy_attempts.simps) auto
    from False plain lt have plainrec:
      "uploadToHevy_attempts env c existing routine (int a) err0 upd0 w =
       uploadToHevy_attempts env c existing routine (int a + 1) e u w1"
      by (subst uploadToHevy_attempts.simps) auto
    show ?thesis
    proof (cases "a = 4")
      case True
      with rec have "((err, isUpdate), (w', calls')) = ((e, u), (w1, c1))"
        by (subst (asm) uploadToHevy_attempts.simps) auto
      moreover from True have "uploadToHevy_attempts env c existing routine (int a + 1) e u w1 =
          ((e, u), w1)"
        by (subst uploadToHevy_attempts.simps) auto
      ultimately show ?thesis
        using u evs ne plainrec by auto
    next
      case notlast: False
      with Suc.prems(2) have lt': "Suc a < 5" by simp
      from Suc.hyps(2) have n: "n = 5 - Suc a" by simp
      from rec have rec': "uploadToHevy_attempts (recording env) c existing routine (int (Suc a)) e u
          (w1, c1) = ((err, isUpdate), (w', calls'))"
        by (simp add: add.commute)
      from Suc.hyps(1) [OF n rec' lt'] obtain evs' where
        p': "uploadToHevy_attempts env c existing routine (int (Suc a)) e u w1 =
               ((err, isUpdate), w')"
        and iu: "isUpdate = (existing \<noteq> None)"
        and evs': "calls' = c1 @ evs'"
          "\<forall>x \<in> set evs'. (\<exists>d. x = Sleep d) \<or> (\<exists>reply. x = HttpDo req reply)"
          "if err = None then \<exists>resp. filter accepted evs' = [HttpDo req (Inr resp)]
           else filter accepted evs' = []"
        by blast
      have "uploadToHevy_attempts env c existing routine (int a) err0 upd0 w = ((err, isUpdate), w')"
        using plainrec p' by (simp add: add.commute)
      moreover have "calls' = calls @ (evs @ evs')"
        using evs(1) evs'(1) by simp
      moreover have "\<forall>x \<in> set (evs @ evs'). (\<exists>d. x = Sleep d) \<or> (\<exists>reply. x = HttpDo req reply)"
        using evs(2) evs'(2) by auto
      moreover have "if err = None then \<exists>resp. filter accepted (evs @ evs') = [HttpDo req (Inr resp)]
             else filter accepted (evs @ evs') = []"
        using evs'(3) by (simp only: filter_append nil append_Nil)
      ultimately show ?thesis
        using iu by blast
    qed
  qed
qed

lemmas run_defs = uploadToHevy_attempts.simps uploadToHevy_attempt_def CreateRoutine_def
  UpdateRoutine_def CreateFolder_def errorOf_def isRateLimitError_def apiError_def Itoa_def
  HasPrefix_def Second_def Millisecond_def baseURL_def spec_createFolderRequest_def
  spec_createRequest_def spec_updateRequest_def

text \<open>
  Claim C2. The retry loop runs for every routine being synced, from attempt index 0 and
  with no error yet. Whatever the environment does, its outcome is that of \<open>n + 1\<close>
  attempts made one after the other, for some \<open>n + 1\<close> from 1 to 5: the world it leaves
  is the world after these attempts, with a call of \<open>time.Sleep\<close> for 20, 40, 80 and 160
  seconds before the second, third, fourth and fifth and none before the first, and the
  error it leaves is the error of the last of them. Every attempt but the last failed
  with a rate-limit error, and when fewer than five were made the last one succeeded or
  failed with another error. An attempt is the update under the existing ID, with the
  folder reference cleared, or else the creation. An error is a rate-limit error exactly
  when it is not \<open>nil\<close> and its text contains \<open>429\<close> or \<open>rate limit\<close>, byte for byte.
  When the loop leaves an error, so in particular after five rate-limited attempts, the
  loop over the routines returns at once with \<open>failed to sync routine\<close>, the title and
  that error, in the world that the last attempt left: no further call is made and the
  sync is over.
\<close>

theorem retry_policy:
  fixes env :: "'w Env" and c existing routine
  defines "call \<equiv> spec_attemptCall env c existing routine"
  assumes run: "uploadToHevy_attempts env c existing routine 0 None False w = ((err, isUpdate), w')"
  shows "(\<exists>n < 5.
            (\<forall>k < n. isRateLimitError (errorOf (fst (spec_attempts env call k w)))) \<and>
            (n < 4 \<longrightarrow> \<not> isRateLimitError (errorOf (fst (spec_attempts env call n w)))) \<and>
            err = errorOf (fst (spec_attempts env call n w)) \<and>
            w' = snd (spec_attempts env call n w)) \<and>
         spec_attempts env call 4 w =
           call (timeSleep env (160 * Second)
             (snd (call (timeSleep env (80 * Second)
               (snd (call (timeSleep env (40 * Second)
                 (snd (call (timeSleep env (20 * Second) (snd (call w)))))))))))) \<and>
         (\<forall>e. isRateLimitError e \<longleftrightarrow>
            (\<exists>text. e = Some text \<and>
               ((\<exists>p q. text = p @ ''429'' @ q) \<or> (\<exists>p q. text = p @ ''rate limit'' @ q)))) \<and>
         (\<forall>msg r routines weekFolders routineByTitle i created updated.
            err = Some msg \<and> existing = routineByTitle (Title r) \<and>
            routine = r\<lparr>FolderID :=
              Some (case weekFolders (i div 4 + 1) of Some folderID \<Rightarrow> folderID | None \<Rightarrow> 0)\<rparr> \<longrightarrow>
            uploadToHevy_routines env c weekFolders routineByTitle i (r # routines)
                created updated w =
              (Inl (''failed to sync routine '' @ Title r @ '': '' @ msg), w'))"
proof -
  from uploadToHevy_attempts_spec [OF run] have
    "\<exists>n < 5.
            (\<forall>k < n. isRateLimitError (errorOf (fst (spec_attempts env call k w)))) \<and>
            (n < 4 \<longrightarrow> \<not> isRateLimitError (errorOf (fst (spec_attempts env call n w)))) \<and>
            err = errorOf (fst (spec_attempts env call n w)) \<and>
            w' = snd (spec_attempts env call n w)"
    unfolding call_def by blast
  moreover have "spec_attempts env call 4 w =
           call (timeSleep env (160 * Second)
             (snd (call (timeSleep env (80 * Second)
               (snd (call (timeSleep env (40 * Second)
                 (snd (call (timeSleep env (20 * Second) (snd (call w))))))))))))"
    by (simp add: numeral_eq_Suc)
  moreover note isRateLimitError_iff
  moreover have "\<forall>msg r routines weekFolders routineByTitle i created updated.
            err = Some msg \<and> existing = routineByTitle (Title r) \<and>
            routine = r\<lparr>FolderID :=
              Some (case weekFolders (i div 4 + 1) of Some folderID \<Rightarrow> folderID | None \<Rightarrow> 0)\<rparr> \<longrightarrow>
            uploadToHevy_routines env c weekFolders routineByTitle i (r # routines)
                created updated w =
              (Inl (''failed to sync routine '' @ Title r @ '': '' @ msg), w')"
    using run by (auto simp add: Let_def)
  ultimately show ?thesis
    by blast
qed

theorem retry_policy_witness:
  "uploadToHevy_attempts (recording exampleEnv) exampleClient None
     ((exampleRoutine ''T'')\<lparr>FolderID := Some 11\<rparr>) 0 None False
     ([answer 429 ''slow'', answer 429 ''slow'', answer 429 ''slow'', answer 201 ''routine R1''],
      []) =
     ((None, False), [],
      [HttpDo (spec_createRequest exampleClient 11 (exampleRoutine ''T'')) (answer 429 ''slow''),
       Sleep (20 * Second),
       HttpDo (spec_createRequest exampleClient 11 (exampleRoutine ''T'')) (answer 429 ''slow''),
       Sleep (40 * Second),
       HttpDo (spec_createRequest exampleClient 11 (exampleRoutine ''T'')) (answer 429 ''slow''),
       Sleep (80 * Second),
       HttpDo (spec_createRequest exampleClient 11 (exampleRoutine ''T''))
         (answer 201 ''routine R1'')]) \<and>
   uploadToHevy_routines (recording exampleEnv) exampleClient Map.empty Map.empty 0
     [exampleRoutine ''T'', exampleRoutine ''U''] 0 0
     ([answer 429 ''slow'', answer 429 ''slow'', answer 429 ''slow'', answer 429 ''slow'',
       answer 429 ''late'', answer 201 ''routine R2''], []) =
     (Inl ''failed to sync routine T: API error (status 429): late'',
      [answer 201 ''routine R2''],
      [HttpDo (spec_createRequest exampleClient 0 (exampleRoutine ''T'')) (answer 429 ''slow''),
       Sleep (20 * Second),
       HttpDo (spec_createRequest exampleClient 0 (exampleRoutine ''T'')) (answer 429 ''slow''),
       Sleep (40 * Second),
       HttpDo (spec_createRequest exampleClient 0 (exampleRoutine ''T'')) (answer 429 ''slow''),
       Sleep (80 * Second),
       HttpDo (spec_createRequest exampleClient 0 (exampleRoutine ''T'')) (answer 429 ''slow''),
       Sleep (160 * Second),
       HttpDo (spec_createRequest exampleClient 0 (exampleRoutine ''T'')) (answer 429 ''late'')])"
proof -
  let ?log5 = "[HttpDo (spec_createRequest exampleClient 0 (exampleRoutine ''T'')) (answer 429 ''slow''),
       Sleep (20 * Second),
       HttpDo (spec_createRequest exampleClient 0 (exampleRoutine ''T'')) (answer 429 ''slow''),
       Sleep (40 * Second),
       HttpDo (spec_createRequest exampleClient 0 (exampleRoutine ''T'')) (answer 429 ''slow''),
       Sleep (80 * Second),
       HttpDo (spec_createRequest exampleClient 0 (exampleRoutine ''T'')) (answer 429 ''slow''),
       Sleep (160 * Second),
       HttpDo (spec_createRequest exampleClient 0 (exampleRoutine ''T'')) (answer 429 ''late'')]"
  have run4: "uploadToHevy_attempts (recording exampleEnv) exampleClient None
     ((exampleRoutine ''T'')\<lparr>FolderID := Some 11\<rparr>) 0 None False
     ([answer 429 ''slow'', answer 429 ''slow'', answer 429 ''slow'', answer 201 ''routine R1''],
      []) =
     ((None, False), [],
      [HttpDo (spec_createRequest exampleClient 11 (exampleRoutine ''T'')) (answer 429 ''slow''),
       Sleep (20 * Second),
       HttpDo (spec_createRequest exampleClient 11 (exampleRoutine ''T'')) (answer 429 ''slow''),
       Sleep (40 * Second),
       HttpDo (spec_createRequest exampleClient 11 (exampleRoutine ''T'')) (answer 429 ''slow''),
       Sleep (80 * Second),
       HttpDo (spec_createRequest exampleClient 11 (exampleRoutine ''T''))
         (answer 201 ''routine R1'')])"
    by (simp add: run_defs example_defs client_defs)
  have run5: "uploadToHevy_attempts (recording exampleEnv) exampleClient None
       ((exampleRoutine ''T'')\<lparr>FolderID := Some 0\<rparr>) 0 None False
       ([answer 429 ''slow'', answer 429 ''slow'', answer 429 ''slow'', answer 429 ''slow'',
         answer 429 ''late'', answer 201 ''routine R2''], []) =
     ((Some ''API error (status 429): late'', False), [answer 201 ''routine R2''], ?log5)"
    by (simp add: run_defs example_defs client_defs)
  have t: "Title (exampleRoutine ''T'') = ''T''"
    by (simp add: exampleRoutine_def)
  have "uploadToHevy_routines (recording exampleEnv) exampleClient Map.empty Map.empty 0
       (exampleRoutine ''T'' # [exampleRoutine ''U'']) 0 0
       ([answer 429 ''slow'', answer 429 ''slow'', answer 429 ''slow'', answer 429 ''slow'',
         answer 429 ''late'', answer 201 ''routine R2''], []) =
     (Inl (''failed to sync routine '' @ Title (exampleRoutine ''T'') @ '': ''
           @ ''API error (status 429): late''), [answer 201 ''routine R2''], ?log5)"
    by (rule retry_policy [OF run5, THEN conjunct2, THEN conjunct2, THEN conjunct2, rule_format])
       simp
  with run4 t show ?thesis
    by simp
qed

lemma uploadToHevy_weeks_recording:
  assumes "uploadToHevy_weeks (recording env) c fbn week wfs (w, calls) = (res, (w', calls'))"
  shows "uploadToHevy_weeks env c fbn week wfs w = (res, w') \<and>
         (\<exists>evs. calls' = calls @ evs \<and>
            (\<forall>e \<in> set evs. \<exists>k reply.
               e = HttpDo (spec_createFolderRequest c (weekFolderName k)) reply))"
  using assms
proof (induction "nat (5 - week)" arbitrary: week wfs w calls)
  case 0
  then have "\<not> week \<le> 4" by simp
  with 0(2) show ?case
    by (simp add: uploadToHevy_weeks.simps)
next
  case (Suc n)
  then have le: "week \<le> 4" by simp
  from Suc.hyps(2) have n: "n = nat (5 - (week + 1))" by simp
  show ?case
  proof (cases "fbn (weekFolderName week)")
    case (Some folderID)
    with le Suc.prems have
      "uploadToHevy_weeks (recording env) c fbn (week + 1) (wfs(week \<mapsto> folderID)) (w, calls) =
         (res, (w', calls'))"
      by (subst (asm) uploadToHevy_weeks.simps) (simp add: Let_def)
    from Suc.hyps(1) [OF n this] Some le show ?thesis
      by (subst uploadToHevy_weeks.simps) (simp add: Let_def)
  next
    case None
    obtain r w1 c1 where
      cf: "CreateFolder (recording env) c (weekFolderName week) (w, calls) = (r, (w1, c1))"
      by (metis surj_pair)
    from CreateFolder_recording [OF cf] obtain evs where
      plain: "CreateFolder env c (weekFolderName week) w = (r, w1)"
      and evs: "c1 = calls @ evs"
        "\<forall>e \<in> set evs. \<exists>reply. e = HttpDo (spec_createFolderRequest c (weekFolderName week)) reply"
      by blast
    show ?thesis
    proof (cases r)
      case (Inl err)
      with None le cf Suc.prems
      have res: "res = Inl (''failed to create folder '' @ weekFolderName week @ '': '' @ err)"
        "w' = w1" "calls' = c1"
        by (subst (asm) uploadToHevy_weeks.simps; simp add: Let_def)+
      from Inl None le plain
      have "uploadToHevy_weeks env c fbn week wfs w = (res, w')"
        unfolding res by (subst uploadToHevy_weeks.simps) (simp add: Let_def)
      moreover have "calls' = calls @ evs"
        using evs(1) res(3) by simp
      moreover have "\<forall>e \<in> set evs. \<exists>k reply.
             e = HttpDo (spec_createFolderRequest c (weekFolderName k)) reply"
        using evs(2) by blast
      ultimately show ?thesis by blast
    next
      case (Inr folder)
      with None le cf Suc.prems have
        "uploadToHevy_weeks (recording env) c fbn (week + 1) (wfs(week \<mapsto> Folder_ID folder))
           (w1, c1) = (res, (w', calls'))"
        by (subst (asm) uploadToHevy_weeks.simps) (simp add: Let_def)
      from Suc.hyps(1) [OF n this] obtain evs' where
        p': "uploadToHevy_weeks env c fbn (week + 1) (wfs(week \<mapsto> Folder_ID folder)) w1 =
               (res, w')"
        and evs': "calls' = c1 @ evs'"
          "\<forall>e \<in> set evs'. \<exists>k reply.
             e = HttpDo (spec_createFolderRequest c (weekFolderName k)) reply"
        by blast
      from Inr None le plain p' have "uploadToHevy_weeks env c fbn week wfs w = (res, w')"
        by (subst uploadToHevy_weeks.simps) (simp add: Let_def)
      moreover have "calls' = calls @ (evs @ evs')"
        using evs(1) evs'(1) by simp
      moreover have "\<forall>e \<in> set (evs @ evs'). \<exists>k reply.
             e = HttpDo (spec_createFolderRequest c (weekFolderName k)) reply"
        unfolding set_append using evs(2) evs'(2) by blast
      ultimately show ?thesis by blast
    qed
  qed
qed

lemma uploadToHevy_weeks_success:
  assumes "uploadToHevy_weeks (recording env) c fbn week wfs (w, calls) = (Inr wfs', (w', calls'))"
  shows "\<exists>reply f.
           calls' = calls @ map (\<lambda>k. HttpDo (spec_createFolderRequest c (weekFolderName k))
                                       (Inr (reply k)))
                       (filter (\<lambda>k. fbn (weekFolderName k) = None) [week..4]) \<and>
           (\<forall>k. week \<le> k \<and> k \<le> 4 \<and> fbn (weekFolderName k) = None \<longrightarrow>
              (StatusCode (reply k) = 200 \<or> StatusCode (reply k) = 201) \<and>
              unmarshalFolder env (ResponseBody (reply k)) = Inr (f k)) \<and>
           (\<forall>k. wfs' k =
              (if week \<le> k \<and> k \<le> 4
               then Some (case fbn (weekFolderName k) of
                            Some folderID \<Rightarrow> folderID | None \<Rightarrow> Folder_ID (f k))
               else wfs k))"
  using assms
proof (induction "nat (5 - week)" arbitrary: week wfs w calls)
  case 0
  then have gt: "\<not> week \<le> 4" by simp
  with 0(2) have same: "wfs' = wfs \<and> calls' = calls"
    by (simp add: uploadToHevy_weeks.simps)
  from gt have e: "[week..4] = []" by simp
  from gt have v: "\<And>k. (week \<le> k \<and> k \<le> 4) = False" by auto
  from gt have v2: "\<And>k Q. (week \<le> k \<and> k \<le> 4 \<and> Q) = False" by auto
  from same show ?case by (simp add: e v v2)
next
  case (Suc n)
  then have le: "week \<le> 4" by simp
  from Suc.hyps(2) have n: "n = nat (5 - (week + 1))" by simp
  have up: "[week..4] = week # [week + 1..4]"
    using le by (simp add: upto_rec1)
  show ?case
  proof (cases "fbn (weekFolderName week)")
    case (Some folderID)
    with le Suc.prems have
      "uploadToHevy_weeks (recording env) c fbn (week + 1) (wfs(week \<mapsto> folderID)) (w, calls) =
         (Inr wfs', (w', calls'))"
      by (subst (asm) uploadToHevy_weeks.simps) (simp add: Let_def)
    from Suc.hyps(1) [OF n this] obtain reply f where
      f: "calls' = calls @ map (\<lambda>k. HttpDo (spec_createFolderRequest c (weekFolderName k))
                                       (Inr (reply k)))
                       (filter (\<lambda>k. fbn (weekFolderName k) = None) [week + 1..4])"
        "\<forall>k. week + 1 \<le> k \<and> k \<le> 4 \<and> fbn (weekFolderName k) = None \<longrightarrow>
              (StatusCode (reply k) = 200 \<or> StatusCode (reply k) = 201) \<and>
              unmarshalFolder env (ResponseBody (reply k)) = Inr (f k)"
        "\<forall>k. wfs' k =
                (if week + 1 \<le> k \<and> k \<le> 4
                 then Some (case fbn (weekFolderName k) of
                              Some folderID \<Rightarrow> folderID | None \<Rightarrow> Folder_ID (f k))
                 else (wfs(week \<mapsto> folderID)) k)"
      by blast
    have "calls' = calls @ map (\<lambda>k. HttpDo (spec_createFolderRequest c (weekFolderName k))
                                       (Inr (reply k)))
                       (filter (\<lambda>k. fbn (weekFolderName k) = None) [week..4])"
      using f(1) Some by (simp add: up)
    moreover have "\<forall>k. week \<le> k \<and> k \<le> 4 \<and> fbn (weekFolderName k) = None \<longrightarrow>
              (StatusCode (reply k) = 200 \<or> StatusCode (reply k) = 201) \<and>
              unmarshalFolder env (ResponseBody (reply k)) = Inr (f k)"
    proof (intro allI impI)
      fix k
      assume k: "week \<le> k \<and> k \<le> 4 \<and> fbn (weekFolderName k) = None"
      with Some have "k \<noteq> week" by auto
      with k have "week + 1 \<le> k \<and> k \<le> 4 \<and> fbn (weekFolderName k) = None" by simp
      with f(2) show "(StatusCode (reply k) = 200 \<or> StatusCode (reply k) = 201) \<and>
              unmarshalFolder env (ResponseBody (reply k)) = Inr (f k)"
        by blast
    qed
    moreover have "\<forall>k. wfs' k =
                (if week \<le> k \<and> k \<le> 4
                 then Some (case fbn (weekFolderName k) of
                              Some folderID \<Rightarrow> folderID | None \<Rightarrow> Folder_ID (f k))
                 else wfs k)"
      using f(3) Some le by auto
    ultimately show ?thesis by blast
  next
    case None
    obtain r w1 c1 where
      cf: "CreateFolder (recording env) c (weekFolderName week) (w, calls) = (r, (w1, c1))"
      by (metis surj_pair)
    show ?thesis
    proof (cases r)
      case (Inl err)
      with None le cf Suc.prems show ?thesis
        by (subst (asm) uploadToHevy_weeks.simps) (simp add: Let_def)
    next
      case (Inr folder)
      from CreateFolder_recording [OF cf] Inr obtain resp where
        resp: "c1 = calls @ [HttpDo (spec_createFolderRequest c (weekFolderName week)) (Inr resp)]"
          "StatusCode resp = 200 \<or> StatusCode resp = 201"
          "unmarshalFolder env (ResponseBody resp) = Inr folder"
        by blast
      from Inr None le cf Suc.prems have
        "uploadToHevy_weeks (recording env) c fbn (week + 1) (wfs(week \<mapsto> Folder_ID folder))
           (w1, c1) = (Inr wfs', (w', calls'))"
        by (subst (asm) uploadToHevy_weeks.simps) (simp add: Let_def)
      from Suc.hyps(1) [OF n this] obtain reply f where
        f: "calls' = c1 @ map (\<lambda>k. HttpDo (spec_createFolderRequest c (weekFolderName k))
                                       (Inr (reply k)))
                       (filter (\<lambda>k. fbn (weekFolderName k) = None) [week + 1..4])"
          "\<forall>k. week + 1 \<le> k \<and> k \<le> 4 \<and> fbn (weekFolderName k) = None \<longrightarrow>
              (StatusCode (reply k) = 200 \<or> StatusCode (reply k) = 201) \<and>
              unmarshalFolder env (ResponseBody (reply k)) = Inr (f k)"
          "\<forall>k. wfs' k =
                (if week + 1 \<le> k \<and> k \<le> 4
                 then Some (case fbn (weekFolderName k) of
                              Some folderID \<Rightarrow> folderID | None \<Rightarrow> Folder_ID (f k))
                 else (wfs(week \<mapsto> Folder_ID folder)) k)"
        by blast
      let ?f = "f(week := folder)" and ?reply = "reply(week := resp)"
      have same: "map (\<lambda>k. HttpDo (spec_createFolderRequest c (weekFolderName k)) (Inr (?reply k)))
                       (filter (\<lambda>k. fbn (weekFolderName k) = None) [week + 1..4]) =
                  map (\<lambda>k. HttpDo (spec_createFolderRequest c (weekFolderName k)) (Inr (reply k)))
                       (filter (\<lambda>k. fbn (weekFolderName k) = None) [week + 1..4])"
        by (rule map_cong) auto
      have "calls' = calls @ map (\<lambda>k. HttpDo (spec_createFolderRequest c (weekFolderName k))
                                       (Inr (?reply k)))
                       (filter (\<lambda>k. fbn (weekFolderName k) = None) [week..4])"
        unfolding up using f(1) resp(1) None same by simp
      moreover have "\<forall>k. week \<le> k \<and> k \<le> 4 \<and> fbn (weekFolderName k) = None \<longrightarrow>
              (StatusCode (?reply k) = 200 \<or> StatusCode (?reply k) = 201) \<and>
              unmarshalFolder env (ResponseBody (?reply k)) = Inr (?f k)"
      proof (intro allI impI)
        fix k
        assume k: "week \<le> k \<and> k \<le> 4 \<and> fbn (weekFolderName k) = None"
        show "(StatusCode (?reply k) = 200 \<or> StatusCode (?reply k) = 201) \<and>
              unmarshalFolder env (ResponseBody (?reply k)) = Inr (?f k)"
        proof (cases "k = week")
          case True
          with resp(2,3) show ?thesis by simp
        next
          case False
          with k have "week + 1 \<le> k \<and> k \<le> 4 \<and> fbn (weekFolderName k) = None" by simp
          with f(2) False show ?thesis by simp
        qed
      qed
      moreover have "\<forall>k. wfs' k =
                (if week \<le> k \<and> k \<le> 4
                 then Some (case fbn (weekFolderName k) of
                              Some folderID \<Rightarrow> folderID | None \<Rightarrow> Folder_ID (?f k))
                 else wfs k)"
      proof
        fix k
        show "wfs' k =
                (if week \<le> k \<and> k \<le> 4
                 then Some (case fbn (weekFolderName k) of
                              Some folderID \<Rightarrow> folderID | None \<Rightarrow> Folder_ID (?f k))
                 else wfs k)"
        proof (cases "k = week")
          case True
          with f(3) None le show ?thesis by simp
        next
          case False
          then have "?f k = f k" by simp
          moreover from False have "(week \<le> k) = (week + 1 \<le> k)" by auto
          ultimately show ?thesis using f(3) False by (simp cong: option.case_cong)
        qed
      qed
      ultimately show ?thesis by blast
    qed
  qed
qed

lemma spec_syncRequest_attempt:
  "(case rbt (Title r) of
      Some existingID \<Rightarrow> spec_updateRequest c existingID (r\<lparr>FolderID := Some folderID\<rparr>)
    | None \<Rightarrow> spec_createRequest c folderID (r\<lparr>FolderID := Some folderID\<rparr>)) =
   (case rbt (Title r) of
      Some existingID \<Rightarrow> spec_updateRequest c existingID r
    | None \<Rightarrow> spec_createRequest c folderID r)"
  by (simp split: option.splits)

lemma spec_folderReference_head:
  "spec_folderReference c wfs rbt i (r # rest) (spec_syncRequest c wfs rbt i r)"
  unfolding spec_folderReference_def by (intro exI [of _ 0]) simp

lemma spec_folderReference_shift:
  assumes "spec_folderReference c wfs rbt (Suc i) rest req"
  shows "spec_folderReference c wfs rbt i (r # rest) req"
proof -
  from assms obtain j where
    j: "j < length rest" "req = spec_syncRequest c wfs rbt (Suc i + j) (rest ! j)"
    unfolding spec_folderReference_def by blast
  have "Suc j < length (r # rest) \<and>
      req = spec_syncRequest c wfs rbt (i + Suc j) ((r # rest) ! Suc j)"
    using j by simp
  then show ?thesis
    unfolding spec_folderReference_def by (intro exI [of _ "Suc j"])
qed

lemma spec_syncRequest_no_folder:
  "\<not> isCreateFolderCall (HttpDo (spec_syncRequest c wfs rbt i r) reply)"
  by (simp add: spec_syncRequest_def spec_updateRequest_def spec_createRequest_def
      split: option.splits)

lemma spec_folderReference_no_folder:
  "spec_folderReference c wfs rbt i rs req \<Longrightarrow> \<not> isCreateFolderCall (HttpDo req reply)"
  unfolding spec_folderReference_def using spec_syncRequest_no_folder by blast

lemma uploadToHevy_routines_recording:
  assumes "uploadToHevy_routines (recording env) c wfs rbt (int i) rs created updated (w, calls) =
             (res, (w', calls'))"
  shows "uploadToHevy_routines env c wfs rbt (int i) rs created updated w = (res, w') \<and>
         (\<exists>evs. calls' = calls @ evs \<and>
            (\<forall>e \<in> set evs. (\<exists>d. e = Sleep d) \<or>
               (\<exists>req reply. e = HttpDo req reply \<and> spec_folderReference c wfs rbt i rs req)))"
  using assms
proof (induction rs arbitrary: i created updated w calls)
  case Nil
  then show ?case by simp
next
  case (Cons r rest)
  let ?f = "case wfs (int i div 4 + 1) of Some folderID \<Rightarrow> folderID | None \<Rightarrow> 0"
  let ?routine = "r\<lparr>FolderID := Some ?f\<rparr>"
  let ?req = "spec_syncRequest c wfs rbt i r"
  let ?P = "\<lambda>rs i e. (\<exists>d. e = Sleep d) \<or>
               (\<exists>req reply. e = HttpDo req reply \<and> spec_folderReference c wfs rbt i rs req)"
  have folder: "FolderID ?routine = Some ?f" by simp
  obtain err isUpdate w1 c1 where
    att: "uploadToHevy_attempts (recording env) c (rbt (Title r)) ?routine 0 None False (w, calls) =
            ((err, isUpdate), (w1, c1))"
    by (metis surj_pair)
  then have att0: "uploadToHevy_attempts (recording env) c (rbt (Title r)) ?routine (int 0) None False
      (w, calls) = ((err, isUpdate), (w1, c1))"
    by simp
  have "Title ?routine = Title r" by simp
  note rec = uploadToHevy_attempts_recording [OF att0 _ folder, unfolded spec_syncRequest_attempt]
  have reqeq: "(case rbt (Title r) of
      Some existingID \<Rightarrow> spec_updateRequest c existingID r
    | None \<Rightarrow> spec_createRequest c ?f r) = ?req"
    by (simp add: spec_syncRequest_def)
  from rec [unfolded reqeq] obtain evs where
    plain: "uploadToHevy_attempts env c (rbt (Title r)) ?routine 0 None False w =
              ((err, isUpdate), w1)"
    and evs: "c1 = calls @ evs"
      "\<forall>x \<in> set evs. (\<exists>d. x = Sleep d) \<or> (\<exists>reply. x = HttpDo ?req reply)"
    by auto
  have ok1: "\<forall>e \<in> set evs. ?P (r # rest) i e"
    using evs(2) spec_folderReference_head [of c wfs rbt i r rest] by blast
  show ?case
  proof (cases err)
    case (Some msg)
    with att Cons.prems have r1: "res = Inl (''failed to sync routine '' @ Title r @ '': '' @ msg)"
      "w' = w1" "calls' = c1"
      by (simp_all add: Let_def)
    from Some plain have "uploadToHevy_routines env c wfs rbt (int i) (r # rest) created updated w =
        (res, w')"
      unfolding r1 by (simp add: Let_def)
    moreover have "calls' = calls @ evs"
      using evs(1) r1(3) by simp
    ultimately show ?thesis using ok1 by blast
  next
    case None
    let ?cr = "if isUpdate then created else created + 1"
    let ?up = "if isUpdate then updated + 1 else updated"
    from None att Cons.prems have
      "uploadToHevy_routines (recording env) c wfs rbt (int (Suc i)) rest ?cr ?up
          (timeSleep env (300 * Millisecond) w1, c1 @ [Sleep (300 * Millisecond)]) =
        (res, (w', calls'))"
      by (cases isUpdate) (simp_all add: Let_def add.commute)
    from Cons.IH [OF this] obtain evs' where
      p': "uploadToHevy_routines env c wfs rbt (int (Suc i)) rest ?cr ?up
             (timeSleep env (300 * Millisecond) w1) = (res, w')"
      and evs': "calls' = (c1 @ [Sleep (300 * Millisecond)]) @ evs'"
        "\<forall>e \<in> set evs'. ?P rest (Suc i) e"
      by blast
    let ?all = "evs @ [Sleep (300 * Millisecond)] @ evs'"
    from None plain p' have
      "uploadToHevy_routines env c wfs rbt (int i) (r # rest) created updated w = (res, w')"
      by (cases isUpdate) (simp_all add: Let_def add.commute)
    moreover have "calls' = calls @ ?all"
      using evs(1) evs'(1) by simp
    moreover have "\<forall>e \<in> set evs'. ?P (r # rest) i e"
      using evs'(2) spec_folderReference_shift [of c wfs rbt i rest _ r] by blast
    then have "\<forall>e \<in> set ?all. ?P (r # rest) i e"
      using ok1 by auto
    ultimately show ?thesis by blast
  qed
qed

lemma uploadToHevy_routines_success:
  assumes "uploadToHevy_routines (recording env) c wfs rbt (int i) rs created updated (w, calls) =
             (Inr (created', updated'), (w', calls'))"
  shows "\<exists>evs. calls' = calls @ evs \<and>
           list_all2 (\<lambda>e (j, r). \<exists>resp. e = HttpDo (spec_syncRequest c wfs rbt j r) (Inr resp))
             (filter accepted evs) (enumerate i rs) \<and>
           created' = created + int (length (filter (\<lambda>r. rbt (Title r) = None) rs)) \<and>
           updated' = updated + int (length (filter (\<lambda>r. rbt (Title r) \<noteq> None) rs))"
  using assms
proof (induction rs arbitrary: i created updated w calls)
  case Nil
  then show ?case by simp
next
  case (Cons r rest)
  let ?f = "case wfs (int i div 4 + 1) of Some folderID \<Rightarrow> folderID | None \<Rightarrow> 0"
  let ?routine = "r\<lparr>FolderID := Some ?f\<rparr>"
  let ?req = "spec_syncRequest c wfs rbt i r"
  let ?ex = "rbt (Title r)"
  have folder: "FolderID ?routine = Some ?f" by simp
  obtain err isUpdate w1 c1 where
    att: "uploadToHevy_attempts (recording env) c ?ex ?routine 0 None False (w, calls) =
            ((err, isUpdate), (w1, c1))"
    by (metis surj_pair)
  then have att0: "uploadToHevy_attempts (recording env) c ?ex ?routine (int 0) None False
      (w, calls) = ((err, isUpdate), (w1, c1))"
    by simp
  note rec = uploadToHevy_attempts_recording [OF att0 _ folder, unfolded spec_syncRequest_attempt]
  have reqeq: "(case rbt (Title r) of
      Some existingID \<Rightarrow> spec_updateRequest c existingID r
    | None \<Rightarrow> spec_createRequest c ?f r) = ?req"
    by (simp add: spec_syncRequest_def)
  have none: "err = None"
  proof (cases err)
    case (Some msg)
    with att Cons.prems show ?thesis by (simp add: Let_def)
  qed simp
  from rec [unfolded reqeq] none obtain evs resp where
    iu: "isUpdate = (?ex \<noteq> None)"
    and evs: "c1 = calls @ evs" "filter accepted evs = [HttpDo ?req (Inr resp)]"
    by auto
  let ?cr = "if ?ex = None then created + 1 else created"
  let ?up = "if ?ex = None then updated else updated + 1"
  from none att Cons.prems iu have
    "uploadToHevy_routines (recording env) c wfs rbt (int (Suc i)) rest ?cr ?up
        (timeSleep env (300 * Millisecond) w1, c1 @ [Sleep (300 * Millisecond)]) =
      (Inr (created', updated'), (w', calls'))"
    by (cases "?ex = None") (auto simp add: Let_def add.commute)
  from Cons.IH [OF this] obtain evs' where
    evs': "calls' = (c1 @ [Sleep (300 * Millisecond)]) @ evs'"
      "list_all2 (\<lambda>e (j, r). \<exists>resp. e = HttpDo (spec_syncRequest c wfs rbt j r) (Inr resp))
         (filter accepted evs') (enumerate (Suc i) rest)"
      "created' = ?cr + int (length (filter (\<lambda>r. rbt (Title r) = None) rest))"
      "updated' = ?up + int (length (filter (\<lambda>r. rbt (Title r) \<noteq> None) rest))"
    by blast
  let ?all = "evs @ [Sleep (300 * Millisecond)] @ evs'"
  have "calls' = calls @ ?all"
    using evs(1) evs'(1) by simp
  moreover have "filter accepted ?all = HttpDo ?req (Inr resp) # filter accepted evs'"
    using evs(2) by simp
  then have "list_all2 (\<lambda>e (j, r). \<exists>resp. e = HttpDo (spec_syncRequest c wfs rbt j r) (Inr resp))
         (filter accepted ?all) (enumerate i (r # rest))"
    using evs'(2) by simp
  moreover have "created' = created + int (length (filter (\<lambda>r. rbt (Title r) = None) (r # rest)))"
    using evs'(3) by simp
  moreover have "updated' = updated + int (length (filter (\<lambda>r. rbt (Title r) \<noteq> None) (r # rest)))"
    using evs'(4) by simp
  ultimately show ?case by blast
qed

lemma uploadToHevy_folderByName_dom:
  "uploadToHevy_folderByName fs m title \<noteq> None \<longleftrightarrow>
     m title \<noteq> None \<or> title \<in> Folder_Title ` set fs"
  by (induction fs arbitrary: m) auto

lemma uploadToHevy_routineByTitle_dom:
  "uploadToHevy_routineByTitle rs m title \<noteq> None \<longleftrightarrow>
     m title \<noteq> None \<or> title \<in> Full_Title ` set rs"
  by (induction rs arbitrary: m) auto

lemma uploadToHevy_folderByName_Some:
  "uploadToHevy_folderByName fs m title = Some folderID \<Longrightarrow>
     m title = Some folderID \<or>
     (\<exists>f \<in> set fs. Folder_Title f = title \<and> Folder_ID f = folderID)"
proof (induction fs arbitrary: m)
  case Nil
  then show ?case by simp
next
  case (Cons a fs)
  from Cons.prems have
    "uploadToHevy_folderByName fs (m(Folder_Title a \<mapsto> Folder_ID a)) title = Some folderID"
    by simp
  from Cons.IH [OF this] show ?case
    by (auto split: if_splits)
qed

lemma uploadToHevy_routineByTitle_Some:
  "uploadToHevy_routineByTitle rs m title = Some existingID \<Longrightarrow>
     m title = Some existingID \<or>
     (\<exists>r \<in> set rs. Full_Title r = title \<and> Full_ID r = existingID)"
proof (induction rs arbitrary: m)
  case Nil
  then show ?case by simp
next
  case (Cons a rs)
  from Cons.prems have
    "uploadToHevy_routineByTitle rs (m(Full_Title a \<mapsto> Full_ID a)) title = Some existingID"
    by simp
  from Cons.IH [OF this] show ?case
    by (auto split: if_splits)
qed

lemma uploadToHevy_folderByName_empty:
  "uploadToHevy_folderByName fs Map.empty title \<noteq> None \<longleftrightarrow> title \<in> Folder_Title ` set fs"
  using uploadToHevy_folderByName_dom [of fs Map.empty title] by simp

lemma uploadToHevy_routineByTitle_empty:
  "uploadToHevy_routineByTitle rs Map.empty title \<noteq> None \<longleftrightarrow> title \<in> Full_Title ` set rs"
  using uploadToHevy_routineByTitle_dom [of rs Map.empty title] by simp

lemma weekFolderName_distinct: "distinct (map weekFolderName [1, 2, 3, 4])"
  by (simp add: weekFolderName_def Itoa_def)

lemma upto_1_4: "[1..4] = [1, 2, 3, 4 :: int]"
  by (simp add: upto_rec1)





lemmas sync_defs = uploadToHevy_sync_def uploadToHevy_weeks.simps weekFolderName_def run_defs
  example_defs client_defs exampleFolders_def exampleExisting_def exampleAnswers_def
  exampleLog_def

lemma example_run:
  "uploadToHevy_sync (recording exampleEnv) exampleClient (take 2 exampleFolders) exampleExisting
     [exampleRoutine ''A'', exampleRoutine ''B''] (exampleAnswers, []) =
   (Inr (1, 1), ([], exampleLog))"
  by (simp add: sync_defs strconv_defs)



text \<open>
  Claim C1, as amended. A sync is run in an environment that logs the requests given to
  \<open>httpClient.Do\<close>; it returns the same result and leaves the same world as without
  the log. For a sync that succeeds:
  \<^item> the requests sent are, first, one creation of a folder for each week 1 to 4 whose
    title \<open>531 BBB Week {week}\<close> is not among the titles of the folders fetched at the
    start, in the order of the weeks, each answered with a status 200 or 201 and a body
    that decodes to a folder, and then the requests for the routines, none of which
    creates a folder; the four titles are different, so a folder is created at most once;
  \<^item> the week-folder map has exactly the weeks 1 to 4, each with the ID of the fetched
    folder of that title or else the ID of the folder created for it;
  \<^item> the requests for the routines that the service accepted are, in the order of the
    payloads, one per payload: an update under the ID found for its title in the
    routine-title map fetched at the start, or else a creation carrying the entry of
    week \<open>index div 4 + 1\<close> in the week-folder map, which exists exactly for an index
    below 16; from index 16 on the creation carries the folder reference 0;
  \<^item> the counts returned are the numbers of payloads whose title is absent from
    (created) and present in (updated) that map.
  The existence check for a week is the lookup \<open>folderByName[folderName]\<close>, made once in
  each round of the loop over the weeks, which ends before the loop over the routines
  begins.
\<close>

theorem sync_plan:
  fixes existingFolders existingRoutines
  defines "folderByName \<equiv> uploadToHevy_folderByName existingFolders Map.empty"
    and "routineByTitle \<equiv> uploadToHevy_routineByTitle existingRoutines Map.empty"
  assumes run: "uploadToHevy_sync (recording env) c existingFolders existingRoutines routines
                  (w, calls) = (Inr (created, updated), (w', calls'))"
  shows "uploadToHevy_sync env c existingFolders existingRoutines routines w =
           (Inr (created, updated), w') \<and>
         (\<exists>weekFolders reply createdFolder routineCalls.
            calls' = calls @
              map (\<lambda>week. HttpDo (spec_createFolderRequest c (weekFolderName week))
                            (Inr (reply week)))
                (filter (\<lambda>week. folderByName (weekFolderName week) = None) [1, 2, 3, 4]) @
              routineCalls \<and>
            (\<forall>week. 1 \<le> week \<and> week \<le> 4 \<and> folderByName (weekFolderName week) = None \<longrightarrow>
               (StatusCode (reply week) = 200 \<or> StatusCode (reply week) = 201) \<and>
               unmarshalFolder env (ResponseBody (reply week)) = Inr (createdFolder week)) \<and>
            (\<forall>week. weekFolders week =
               (if 1 \<le> week \<and> week \<le> 4
                then Some (case folderByName (weekFolderName week) of
                             Some folderID \<Rightarrow> folderID
                           | None \<Rightarrow> Folder_ID (createdFolder week))
                else None)) \<and>
            (\<forall>i. weekFolders (int i div 4 + 1) = None \<longleftrightarrow> 16 \<le> i) \<and>
            (\<forall>e \<in> set routineCalls. \<not> isCreateFolderCall e) \<and>
            list_all2
              (\<lambda>e (i, r). \<exists>resp. e = HttpDo (spec_syncRequest c weekFolders routineByTitle i r)
                                       (Inr resp))
              (filter accepted routineCalls) (enumerate 0 routines)) \<and>
         created = int (length (filter (\<lambda>r. routineByTitle (Title r) = None) routines)) \<and>
         updated = int (length (filter (\<lambda>r. routineByTitle (Title r) \<noteq> None) routines)) \<and>
         (\<forall>title. folderByName title \<noteq> None \<longleftrightarrow> title \<in> Folder_Title ` set existingFolders) \<and>
         (\<forall>title. routineByTitle title \<noteq> None \<longleftrightarrow> title \<in> Full_Title ` set existingRoutines) \<and>
         (\<forall>title folderID. folderByName title = Some folderID \<longrightarrow>
            (\<exists>f \<in> set existingFolders. Folder_Title f = title \<and> Folder_ID f = folderID)) \<and>
         (\<forall>title existingID. routineByTitle title = Some existingID \<longrightarrow>
            (\<exists>r \<in> set existingRoutines. Full_Title r = title \<and> Full_ID r = existingID)) \<and>
         distinct (map weekFolderName [1, 2, 3, 4])"
proof -
  obtain r1 w1 c1 where
    weeks: "uploadToHevy_weeks (recording env) c folderByName 1 Map.empty (w, calls) =
              (r1, (w1, c1))"
    by (metis surj_pair)
  from run weeks obtain weekFolders where r1: "r1 = Inr weekFolders"
    by (cases r1) (simp_all add: uploadToHevy_sync_def folderByName_def)
  from uploadToHevy_weeks_success [OF weeks [unfolded r1]] obtain reply f where
    f: "c1 = calls @ map (\<lambda>k. HttpDo (spec_createFolderRequest c (weekFolderName k))
                                (Inr (reply k)))
                       (filter (\<lambda>k. folderByName (weekFolderName k) = None) [1, 2, 3, 4])"
      "\<forall>k. 1 \<le> k \<and> k \<le> 4 \<and> folderByName (weekFolderName k) = None \<longrightarrow>
              (StatusCode (reply k) = 200 \<or> StatusCode (reply k) = 201) \<and>
              unmarshalFolder env (ResponseBody (reply k)) = Inr (f k)"
      "\<forall>k. weekFolders k =
                (if 1 \<le> k \<and> k \<le> 4
                 then Some (case folderByName (weekFolderName k) of
                              Some folderID \<Rightarrow> folderID | None \<Rightarrow> Folder_ID (f k))
                 else None)"
    unfolding upto_1_4 by auto
  have weekOf: "\<forall>i. weekFolders (int i div 4 + 1) = None \<longleftrightarrow> 16 \<le> i"
  proof
    fix i :: nat
    have "(1 \<le> int i div 4 + 1 \<and> int i div 4 + 1 \<le> 4) = (i < 16)"
      by auto
    with f(3) show "weekFolders (int i div 4 + 1) = None \<longleftrightarrow> 16 \<le> i"
      by auto
  qed
  from run weeks r1 have rt:
    "uploadToHevy_routines (recording env) c weekFolders routineByTitle (int 0) routines 0 0
       (w1, c1) = (Inr (created, updated), (w', calls'))"
    by (simp add: uploadToHevy_sync_def folderByName_def routineByTitle_def)
  from uploadToHevy_routines_success [OF rt] obtain evs where
    evs: "calls' = c1 @ evs"
      "list_all2
         (\<lambda>e (j, r). \<exists>resp. e = HttpDo (spec_syncRequest c weekFolders routineByTitle j r)
                                  (Inr resp))
         (filter accepted evs) (enumerate 0 routines)"
      "created = int (length (filter (\<lambda>r. routineByTitle (Title r) = None) routines))"
      "updated = int (length (filter (\<lambda>r. routineByTitle (Title r) \<noteq> None) routines))"
    by auto
  from uploadToHevy_routines_recording [OF rt] obtain evs' where
    prt: "uploadToHevy_routines env c weekFolders routineByTitle (int 0) routines 0 0 w1 =
            (Inr (created, updated), w')"
    and evs': "calls' = c1 @ evs'"
      "\<forall>e \<in> set evs'. (\<exists>d. e = Sleep d) \<or>
         (\<exists>req reply. e = HttpDo req reply \<and>
            spec_folderReference c weekFolders routineByTitle 0 routines req)"
    by blast
  from evs(1) evs'(1) have same: "evs' = evs" by simp
  have nofolder: "\<forall>e \<in> set evs. \<not> isCreateFolderCall e"
  proof
    fix e
    assume "e \<in> set evs"
    with evs'(2) same consider d where "e = Sleep d"
      | req reply where "e = HttpDo req reply"
          "spec_folderReference c weekFolders routineByTitle 0 routines req"
      by blast
    then show "\<not> isCreateFolderCall e"
    proof cases
      case 1
      then show ?thesis by simp
    next
      case 2
      then show ?thesis
        using spec_folderReference_no_folder by blast
    qed
  qed
  from uploadToHevy_weeks_recording [OF weeks] r1 have
    "uploadToHevy_weeks env c folderByName 1 Map.empty w = (Inr weekFolders, w1)"
    by blast
  with prt have plain: "uploadToHevy_sync env c existingFolders existingRoutines routines w =
      (Inr (created, updated), w')"
    by (simp add: uploadToHevy_sync_def folderByName_def routineByTitle_def)
  have log: "calls' = calls @
              map (\<lambda>week. HttpDo (spec_createFolderRequest c (weekFolderName week))
                            (Inr (reply week)))
                (filter (\<lambda>week. folderByName (weekFolderName week) = None) [1, 2, 3, 4]) @ evs"
    using evs(1) f(1) by simp
  from log f(2) f(3) weekOf nofolder evs(2) have
    "\<exists>weekFolders reply createdFolder routineCalls.
            calls' = calls @
              map (\<lambda>week. HttpDo (spec_createFolderRequest c (weekFolderName week))
                            (Inr (reply week)))
                (filter (\<lambda>week. folderByName (weekFolderName week) = None) [1, 2, 3, 4]) @
              routineCalls \<and>
            (\<forall>week. 1 \<le> week \<and> week \<le> 4 \<and> folderByName (weekFolderName week) = None \<longrightarrow>
               (StatusCode (reply week) = 200 \<or> StatusCode (reply week) = 201) \<and>
               unmarshalFolder env (ResponseBody (reply week)) = Inr (createdFolder week)) \<and>
            (\<forall>week. weekFolders week =
               (if 1 \<le> week \<and> week \<le> 4
                then Some (case folderByName (weekFolderName week) of
                             Some folderID \<Rightarrow> folderID
                           | None \<Rightarrow> Folder_ID (createdFolder week))
                else None)) \<and>
            (\<forall>i. weekFolders (int i div 4 + 1) = None \<longleftrightarrow> 16 \<le> i) \<and>
            (\<forall>e \<in> set routineCalls. \<not> isCreateFolderCall e) \<and>
            list_all2
              (\<lambda>e (i, r). \<exists>resp. e = HttpDo (spec_syncRequest c weekFolders routineByTitle i r)
                                       (Inr resp))
              (filter accepted routineCalls) (enumerate 0 routines)"
    by (intro exI [of _ weekFolders] exI [of _ reply] exI [of _ f] exI [of _ evs] conjI)
  moreover have "\<forall>title. folderByName title \<noteq> None \<longleftrightarrow> title \<in> Folder_Title ` set existingFolders"
    unfolding folderByName_def by (intro allI) (rule uploadToHevy_folderByName_empty)
  moreover have "\<forall>title. routineByTitle title \<noteq> None \<longleftrightarrow> title \<in> Full_Title ` set existingRoutines"
    unfolding routineByTitle_def by (intro allI) (rule uploadToHevy_routineByTitle_empty)
  moreover have "\<forall>title folderID. folderByName title = Some folderID \<longrightarrow>
            (\<exists>f \<in> set existingFolders. Folder_Title f = title \<and> Folder_ID f = folderID)"
    unfolding folderByName_def using uploadToHevy_folderByName_Some [of existingFolders Map.empty]
    by auto
  moreover have "\<forall>title existingID. routineByTitle title = Some existingID \<longrightarrow>
            (\<exists>r \<in> set existingRoutines. Full_Title r = title \<and> Full_ID r = existingID)"
    unfolding routineByTitle_def
    using uploadToHevy_routineByTitle_Some [of existingRoutines Map.empty]
    by auto
  ultimately show ?thesis
    using plain evs(3,4) weekFolderName_distinct by blast
qed

theorem sync_plan_witness:
  "uploadToHevy_sync (recording exampleEnv) exampleClient (take 2 exampleFolders) exampleExisting
     [exampleRoutine ''A'', exampleRoutine ''B''] (exampleAnswers, []) =
     (Inr (1, 1), ([], exampleLog)) \<and>
   uploadToHevy_sync exampleEnv exampleClient (take 2 exampleFolders) exampleExisting
     [exampleRoutine ''A'', exampleRoutine ''B''] exampleAnswers = (Inr (1, 1), []) \<and>
   (1 :: int) = int (length (filter
      (\<lambda>r. uploadToHevy_routineByTitle exampleExisting Map.empty (Title r) = None)
      [exampleRoutine ''A'', exampleRoutine ''B''])) \<and>
   (1 :: int) = int (length (filter
      (\<lambda>r. uploadToHevy_routineByTitle exampleExisting Map.empty (Title r) \<noteq> None)
      [exampleRoutine ''A'', exampleRoutine ''B''])) \<and>
   (\<exists>weekFolders (reply :: int \<Rightarrow> Response) (createdFolder :: int \<Rightarrow> Folder) routineCalls.
      exampleLog =
        [HttpDo (spec_createFolderRequest exampleClient ''531 BBB Week 3'') (Inr (reply 3)),
         HttpDo (spec_createFolderRequest exampleClient ''531 BBB Week 4'') (Inr (reply 4))] @
        routineCalls \<and>
      unmarshalFolder exampleEnv (ResponseBody (reply 3)) = Inr (createdFolder 3) \<and>
      unmarshalFolder exampleEnv (ResponseBody (reply 4)) = Inr (createdFolder 4) \<and>
      weekFolders 1 = Some 11 \<and> weekFolders 2 = Some 12 \<and>
      weekFolders 3 = Some (Folder_ID (createdFolder 3)) \<and>
      weekFolders 4 = Some (Folder_ID (createdFolder 4)) \<and>
      weekFolders 5 = None \<and>
      list_all2
        (\<lambda>e (i, r). \<exists>resp. e = HttpDo (spec_syncRequest exampleClient weekFolders
           (uploadToHevy_routineByTitle exampleExisting Map.empty) i r) (Inr resp))
        (filter accepted routineCalls)
        (enumerate 0 [exampleRoutine ''A'', exampleRoutine ''B'']))"
proof -
  let ?fbn = "uploadToHevy_folderByName (take 2 exampleFolders) Map.empty"
  have fbn: "?fbn (weekFolderName 1) = Some 11" "?fbn (weekFolderName 2) = Some 12"
    "?fbn (weekFolderName 3) = None" "?fbn (weekFolderName 4) = None"
    by (simp_all add: exampleFolders_def weekFolderName_def Itoa_def)
  have nm: "weekFolderName 3 = ''531 BBB Week 3''" "weekFolderName 4 = ''531 BBB Week 4''"
    by (simp_all add: weekFolderName_def Itoa_def)
  have fl: "filter (\<lambda>week. ?fbn (weekFolderName week) = None) [1, 2, 3, 4] = [3, 4]"
    by (simp add: fbn)
  note plan = sync_plan [OF example_run]
  from plan [THEN conjunct2, THEN conjunct1]
  obtain weekFolders reply createdFolder routineCalls where
    tr: "exampleLog = [] @
           map (\<lambda>week. HttpDo (spec_createFolderRequest exampleClient (weekFolderName week))
                         (Inr (reply week)))
             (filter (\<lambda>week. ?fbn (weekFolderName week) = None) [1, 2, 3, 4]) @ routineCalls"
    and dec: "\<forall>week. 1 \<le> week \<and> week \<le> 4 \<and> ?fbn (weekFolderName week) = None \<longrightarrow>
               (StatusCode (reply week) = 200 \<or> StatusCode (reply week) = 201) \<and>
               unmarshalFolder exampleEnv (ResponseBody (reply week)) = Inr (createdFolder week)"
    and wf: "\<forall>week. weekFolders week =
               (if 1 \<le> week \<and> week \<le> 4
                then Some (case ?fbn (weekFolderName week) of
                             Some folderID \<Rightarrow> folderID
                           | None \<Rightarrow> Folder_ID (createdFolder week))
                else None)"
    and calls: "list_all2
        (\<lambda>e (i, r). \<exists>resp. e = HttpDo (spec_syncRequest exampleClient weekFolders
           (uploadToHevy_routineByTitle exampleExisting Map.empty) i r) (Inr resp))
        (filter accepted routineCalls)
        (enumerate 0 [exampleRoutine ''A'', exampleRoutine ''B''])"
    by (elim exE conjE) (rule that)
  from tr [unfolded fl] have tr': "exampleLog =
        [HttpDo (spec_createFolderRequest exampleClient ''531 BBB Week 3'') (Inr (reply 3)),
         HttpDo (spec_createFolderRequest exampleClient ''531 BBB Week 4'') (Inr (reply 4))] @
        routineCalls"
    by (simp add: nm)
  have d: "unmarshalFolder exampleEnv (ResponseBody (reply 3)) = Inr (createdFolder 3)"
    "unmarshalFolder exampleEnv (ResponseBody (reply 4)) = Inr (createdFolder 4)"
    using dec [rule_format, of 3] dec [rule_format, of 4] fbn by simp_all
  have w: "weekFolders 1 = Some 11" "weekFolders 2 = Some 12"
    "weekFolders 3 = Some (Folder_ID (createdFolder 3))"
    "weekFolders 4 = Some (Folder_ID (createdFolder 4))" "weekFolders 5 = None"
    by (simp_all add: wf fbn)
  from tr' d w calls have ex:
    "\<exists>weekFolders (reply :: int \<Rightarrow> Response) (createdFolder :: int \<Rightarrow> Folder) routineCalls.
      exampleLog =
        [HttpDo (spec_createFolderRequest exampleClient ''531 BBB Week 3'') (Inr (reply 3)),
         HttpDo (spec_createFolderRequest exampleClient ''531 BBB Week 4'') (Inr (reply 4))] @
        routineCalls \<and>
      unmarshalFolder exampleEnv (ResponseBody (reply 3)) = Inr (createdFolder 3) \<and>
      unmarshalFolder exampleEnv (ResponseBody (reply 4)) = Inr (createdFolder 4) \<and>
      weekFolders 1 = Some 11 \<and> weekFolders 2 = Some 12 \<and>
      weekFolders 3 = Some (Folder_ID (createdFolder 3)) \<and>
      weekFolders 4 = Some (Folder_ID (createdFolder 4)) \<and>
      weekFolders 5 = None \<and>
      list_all2
        (\<lambda>e (i, r). \<exists>resp. e = HttpDo (spec_syncRequest exampleClient weekFolders
           (uploadToHevy_routineByTitle exampleExisting Map.empty) i r) (Inr resp))
        (filter accepted routineCalls)
        (enumerate 0 [exampleRoutine ''A'', exampleRoutine ''B''])"
    by (intro exI [of _ weekFolders] exI [of _ reply] exI [of _ createdFolder]
        exI [of _ routineCalls] conjI)
  show ?thesis
    by (intro conjI example_run plan [THEN conjunct1]
        plan [THEN conjunct2, THEN conjunct2, THEN conjunct1]
        plan [THEN conjunct2, THEN conjunct2, THEN conjunct2, THEN conjunct1] ex)
qed

text \<open>The scenario of the specification: sixteen payloads, four of them with the titles of
  existing routines; every call succeeds at its first attempt. Four are updated and twelve
  created.\<close>

lemma sync_scenario:
  "fst (uploadToHevy_sync (recording exampleEnv) exampleClient exampleFolders
          (map (\<lambda>title. \<lparr>Full_ID = ''R'', Full_Title = title, Full_FolderID = None\<rparr>)
             [''W1D1'', ''W2D2'', ''W3D3'', ''W4D4''])
          (map exampleRoutine
             [''W1D1'', ''W1D2'', ''W1D3'', ''W1D4'', ''W2D1'', ''W2D2'', ''W2D3'', ''W2D4'',
              ''W3D1'', ''W3D2'', ''W3D3'', ''W3D4'', ''W4D1'', ''W4D2'', ''W4D3'', ''W4D4''])
          (replicate 16 (answer 200 ''routine R''), [])) =
     Inr (12, 4)"
  by (simp add: sync_defs numeral_eq_Suc)

text \<open>
  The claim C1 as it was stated, for every sequence of payloads, fails on a sequence of
  seventeen: all four week folders exist, with the IDs 11 to 14, no folder is created,
  the sync succeeds with 17 created, and the request that creates the last payload
  (index 16, week 5) carries the folder reference 0, the folder of no week.
\<close>

theorem sync_seventeenth_payload:
  "fst (uploadToHevy_sync (recording exampleEnv) exampleClient exampleFolders []
          (replicate 17 (exampleRoutine ''T'')) (replicate 17 (answer 201 ''routine R''), [])) =
     Inr (17, 0) \<and>
   snd (snd (uploadToHevy_sync (recording exampleEnv) exampleClient exampleFolders []
          (replicate 17 (exampleRoutine ''T'')) (replicate 17 (answer 201 ''routine R''), [])))
     ! 32 =
     HttpDo
       \<lparr>Method = ''POST'', URL = ''https://api.hevyapp.com/v1/routines'',
        Header = [(''api-key'', ''key''), (''Content-Type'', ''application/json''),
                  (''Accept'', ''application/json'')],
        Body = Some (RoutineWrapper
                 \<lparr>Title = ''T'', FolderID = Some 0, Notes = None, Exercises = []\<rparr>)\<rparr>
       (answer 201 ''routine R'') \<and>
   map Folder_ID exampleFolders = [11, 12, 13, 14] \<and>
   \<not> list_ex isCreateFolderCall
     (snd (snd (uploadToHevy_sync (recording exampleEnv) exampleClient exampleFolders []
          (replicate 17 (exampleRoutine ''T'')) (replicate 17 (answer 201 ''routine R''), []))))"
  by (simp add: sync_defs numeral_eq_Suc)

end
